theory Spec2Isabelle
  imports Main
begin

section \<open>Data model (shipment/models.py)\<close>

text \<open>
  \<open>Shipment.STATUS_CHOICES\<close> and \<open>Shipment.CARRIER_CHOICES\<close> are closed sets of
  strings; they are modelled as enumerations. Timestamps are natural numbers
  (ticks of the clock that \<open>timezone.now()\<close> reads).
\<close>

datatype status =
  PENDING | PICKED_UP | IN_TRANSIT | OUT_FOR_DELIVERY | DELIVERED | CANCELLED | FAILED

datatype carrier = DHL | Bluedart | FedEx | DTDC

fun status_str :: "status \<Rightarrow> string" where
  "status_str PENDING = ''PENDING''"
| "status_str PICKED_UP = ''PICKED_UP''"
| "status_str IN_TRANSIT = ''IN_TRANSIT''"
| "status_str OUT_FOR_DELIVERY = ''OUT_FOR_DELIVERY''"
| "status_str DELIVERED = ''DELIVERED''"
| "status_str CANCELLED = ''CANCELLED''"
| "status_str FAILED = ''FAILED''"

fun carrier_str :: "carrier \<Rightarrow> string" where
  "carrier_str DHL = ''DHL''"
| "carrier_str Bluedart = ''Bluedart''"
| "carrier_str FedEx = ''FedEx''"
| "carrier_str DTDC = ''DTDC''"

text \<open>
  A row of the \<open>shipments\<close> table. \<open>pk\<close> is Django's \<open>id\<close>; \<open>actual_weight\<close> is the
  decimal in hundredths of a kilogram; \<open>notes_text\<close> is the column \<open>notes\<close>.
\<close>

record shipment =
  pk :: nat
  order_id :: int
  tracking_no :: string
  carrier :: carrier
  status :: status
  shipped_at :: "nat option"
  delivered_at :: "nat option"
  created_at :: nat
  updated_at :: nat
  shipping_address :: "string option"
  estimated_delivery :: "nat option"
  actual_weight :: "int option"
  notes_text :: "string option"

text \<open>A row of the \<open>shipment_history\<close> table; \<open>h_shipment\<close> is the foreign key.\<close>

record shipment_history =
  h_pk :: nat
  h_shipment :: nat
  h_status :: status
  h_location :: string
  h_description :: string
  h_timestamp :: nat

text \<open>Exceptions the modelled code can raise, as values.\<close>

datatype error =
  ValidationError string
| JSONDecodeError
| IntegrityError
| OverflowError
| ModuleNotFoundError
| Http404
| AMQPError

section \<open>Status transitions (ShipmentUpdateSerializer.validate\_status)\<close>

text \<open>The dictionary \<open>valid_transitions\<close> of \<open>validate_status\<close>, key by key.\<close>

fun valid_transitions :: "status \<Rightarrow> status list" where
  "valid_transitions PENDING = [PICKED_UP, CANCELLED]"
| "valid_transitions PICKED_UP = [IN_TRANSIT, CANCELLED]"
| "valid_transitions IN_TRANSIT = [OUT_FOR_DELIVERY, FAILED]"
| "valid_transitions OUT_FOR_DELIVERY = [DELIVERED, FAILED]"
| "valid_transitions DELIVERED = []"
| "valid_transitions CANCELLED = []"
| "valid_transitions FAILED = [IN_TRANSIT]"

text \<open>
  \<open>validate_status(self, value)\<close>: \<open>self.instance\<close> is the shipment being updated
  (\<open>None\<close> when the serializer has no instance). The value is returned unchanged
  unless it differs from the current status and is not listed for it.
\<close>

definition validate_status :: "shipment option \<Rightarrow> status \<Rightarrow> error + status" where
  "validate_status instance v =
     (case instance of
        None \<Rightarrow> Inr v
      | Some inst \<Rightarrow>
          (let current_status = status inst in
           if v \<noteq> current_status \<and> v \<notin> set (valid_transitions current_status)
           then Inl (ValidationError
                  (''Invalid status transition from '' @ status_str current_status
                     @ '' to '' @ status_str v))
           else Inr v))"

text \<open>
  The transition table as the specification words it, for comparison with
  \<open>valid_transitions\<close>.
\<close>

fun spec_transition_table :: "status \<Rightarrow> status set" where
  "spec_transition_table PENDING = {PICKED_UP, CANCELLED}"
| "spec_transition_table PICKED_UP = {IN_TRANSIT, CANCELLED}"
| "spec_transition_table IN_TRANSIT = {OUT_FOR_DELIVERY, FAILED}"
| "spec_transition_table OUT_FOR_DELIVERY = {DELIVERED, FAILED}"
| "spec_transition_table FAILED = {IN_TRANSIT}"
| "spec_transition_table DELIVERED = {}"
| "spec_transition_table CANCELLED = {}"

definition is_invalid_transition :: "error + status \<Rightarrow> status \<Rightarrow> status \<Rightarrow> bool" where
  "is_invalid_transition r cur req =
     (r = Inl (ValidationError
          (''Invalid status transition from '' @ status_str cur @ '' to '' @ status_str req)))"


section \<open>Tracking numbers\<close>

text \<open>Python's \<open>str\<close> of a non-negative integer: its decimal digits.\<close>

definition digit_char :: "nat \<Rightarrow> char" where
  "digit_char d = ''0123456789'' ! d"

fun str_nat :: "nat \<Rightarrow> string" where
  "str_nat n = (if n < 10 then [digit_char n] else str_nat (n div 10) @ [digit_char (n mod 10)])"

declare str_nat.simps [simp del]

text \<open>
  \<open>random.randint(a, b)\<close> returns some integer between \<open>a\<close> and \<open>b\<close>, both
  included; which one is decided by the generator's raw output \<open>r\<close>.
\<close>

definition randint :: "nat \<Rightarrow> nat \<Rightarrow> nat \<Rightarrow> nat" where
  "randint a b r = a + r mod (b - a + 1)"

text \<open>The f-string \<open>f"TRK{random.randint(1000, 9999)}"\<close>.\<close>

definition new_tracking_no :: "nat \<Rightarrow> string" where
  "new_tracking_no r = ''TRK'' @ str_nat (randint 1000 9999 r)"

text \<open>\<open>Shipment.objects.filter(tracking_no=t).exists()\<close> over the rows of the table.\<close>

definition tracking_no_exists :: "shipment list \<Rightarrow> string \<Rightarrow> bool" where
  "tracking_no_exists rows t = (filter (\<lambda>s. tracking_no s = t) rows \<noteq> [])"

text \<open>
  The loop \<open>while Shipment.objects.filter(tracking_no=tracking_no).exists()\<close>, which
  draws again on every collision. \<open>rng i\<close> is the raw output of the generator at its
  \<open>i\<close>-th call. The loop has no bound: where it does not return the value is \<open>None\<close>.
\<close>

partial_function (option) resample ::
  "(nat \<Rightarrow> nat) \<Rightarrow> shipment list \<Rightarrow> nat \<Rightarrow> string \<Rightarrow> string option" where
  "resample rng rows i t =
     (if tracking_no_exists rows t
      then resample rng rows (Suc i) (new_tracking_no (rng i))
      else Some t)"

text \<open>
  The allocation as both \<open>ShipmentCreateSerializer.create\<close> and
  \<open>handle_order_confirmed\<close> write it: one draw, then the loop.
\<close>

definition generate_tracking_no :: "(nat \<Rightarrow> nat) \<Rightarrow> shipment list \<Rightarrow> string option" where
  "generate_tracking_no rng rows = resample rng rows 1 (new_tracking_no (rng 0))"

definition is_digit :: "char \<Rightarrow> bool" where
  "is_digit c = (c \<in> set ''0123456789'')"

text \<open>The shape \<open>TRK\<close> followed by exactly four decimal digits.\<close>

definition trk_4_digits :: "string \<Rightarrow> bool" where
  "trk_4_digits t = (length t = 7 \<and> take 3 t = ''TRK'' \<and> list_all is_digit (drop 3 t))"

section \<open>The database, the broker and the publisher\<close>

datatype jval = JInt int | JStr string | JTime nat | JNone

type_synonym payload = "(string \<times> jval) list"

type_synonym event = "string \<times> payload"

text \<open>
  The state the code reads and writes: the two tables with their auto-increment
  counters, the singleton publisher (\<open>publisher_open\<close>: it holds a connection that
  is not closed), the messages the broker accepted (\<open>outbox\<close>), and the trace of the
  calls of \<open>publish_event\<close> with their arguments (\<open>publish_calls\<close>).
\<close>

record world =
  shipments :: "shipment list"
  history :: "shipment_history list"
  next_shipment_pk :: nat
  next_history_pk :: nat
  publisher_open :: bool
  outbox :: "event list"
  publish_calls :: "event list"

text \<open>How the broker answers one publication: may a connection be opened, and
  does \<open>basic_publish\<close> go through.\<close>

record broker_outcome =
  connect_ok :: bool
  publish_ok :: bool

text \<open>
  What a call runs under: \<open>settings.RABBITMQ_ENABLED\<close>, the broker's answer to the
  \<open>k\<close>-th call of \<open>publish_event\<close>, and the time \<open>timezone.now()\<close> returns.
\<close>

record ctx =
  rabbitmq_enabled :: bool
  broker :: "nat \<Rightarrow> broker_outcome"
  now :: nat

subsection \<open>shipment/rabbitmq\_publisher.py\<close>

definition close :: "world \<Rightarrow> world" where
  "close w = w\<lparr>publisher_open := False\<rparr>"

definition basic_publish :: "broker_outcome \<Rightarrow> event \<Rightarrow> world \<Rightarrow> (error + bool) \<times> world" where
  "basic_publish b ev w =
     (if publish_ok b then (Inr True, w\<lparr>outbox := outbox w @ [ev]\<rparr>)
      else (Inl AMQPError, w))"

text \<open>The \<open>try\<close> block of \<open>RabbitMQPublisher.publish\<close>; \<open>Inl\<close> is an exception raised
  inside it. \<open>connect\<close> catches its own exceptions and returns a boolean.\<close>

definition publish_try :: "broker_outcome \<Rightarrow> event \<Rightarrow> world \<Rightarrow> (error + bool) \<times> world" where
  "publish_try b ev w =
     (if \<not> publisher_open w
      then (if \<not> connect_ok b then (Inr False, w)
            else basic_publish b ev (w\<lparr>publisher_open := True\<rparr>))
      else basic_publish b ev w)"

text \<open>\<open>RabbitMQPublisher.publish\<close>: the \<open>except Exception\<close> clause closes the
  connection and returns \<open>False\<close>.\<close>

definition publish :: "broker_outcome \<Rightarrow> event \<Rightarrow> world \<Rightarrow> bool \<times> world" where
  "publish b ev w =
     (case publish_try b ev w of
        (Inr r, w') \<Rightarrow> (r, w')
      | (Inl e, w') \<Rightarrow> (False, close w'))"

text \<open>\<open>publish_event(event_type, data)\<close>.\<close>

definition publish_event :: "ctx \<Rightarrow> string \<Rightarrow> payload \<Rightarrow> world \<Rightarrow> bool \<times> world" where
  "publish_event c event_type data w =
     (let k = length (publish_calls w);
          w0 = w\<lparr>publish_calls := publish_calls w @ [(event_type, data)]\<rparr>
      in if \<not> rabbitmq_enabled c then (False, w0)
         else publish (broker c k) (event_type, data) w0)"

subsection \<open>Shipment.save and the table\<close>

text \<open>\<open>Shipment.save\<close>: the two automatic timestamps, then the columns as written
  (\<open>updated_at\<close> is \<open>auto_now\<close>).\<close>

definition save :: "nat \<Rightarrow> shipment \<Rightarrow> shipment" where
  "save t s =
     (let s1 = (if status s \<in> {PICKED_UP, IN_TRANSIT} \<and> shipped_at s = None
                then s\<lparr>shipped_at := Some t\<rparr> else s);
          s2 = (if status s1 = DELIVERED \<and> delivered_at s1 = None
                then s1\<lparr>delivered_at := Some t\<rparr> else s1)
      in s2\<lparr>updated_at := t\<rparr>)"

text \<open>Writing a saved instance back: the row with its primary key is replaced.\<close>

definition db_update :: "shipment \<Rightarrow> shipment list \<Rightarrow> shipment list" where
  "db_update s rows = map (\<lambda>r. if pk r = pk s then s else r) rows"

text \<open>
  The integers an \<open>IntegerField\<close> column stores. The database settings are not
  part of the sources; the range is that of Django's default backend (SQLite,
  64-bit signed), whose driver raises \<open>OverflowError\<close> for any other integer.
\<close>

definition integer_column_ok :: "int \<Rightarrow> bool" where
  "integer_column_ok n = (- (2 ^ 63) \<le> n \<and> n < 2 ^ 63)"

text \<open>
  \<open>Shipment.objects.create(...)\<close>: a missing \<open>order_id\<close> violates NOT NULL, an
  \<open>order_id\<close> outside the column's range makes the insert raise, and a tracking
  number already stored violates the unique constraint; otherwise the row gets the
  next primary key and \<open>created_at\<close>, is saved and stored.
\<close>

definition objects_create ::
  "nat \<Rightarrow> int option \<Rightarrow> shipment \<Rightarrow> world \<Rightarrow> error + (shipment \<times> world)" where
  "objects_create t oid vals w =
     (case oid of
        None \<Rightarrow> Inl IntegrityError
      | Some n \<Rightarrow>
          if \<not> integer_column_ok n then Inl OverflowError
          else if tracking_no_exists (shipments w) (tracking_no vals) then Inl IntegrityError
          else
            (let s = save t (vals\<lparr>pk := next_shipment_pk w, order_id := n, created_at := t\<rparr>)
             in Inr (s, w\<lparr>shipments := shipments w @ [s],
                          next_shipment_pk := Suc (next_shipment_pk w)\<rparr>)))"

definition new_shipment :: "string \<Rightarrow> carrier \<Rightarrow> string option \<Rightarrow> shipment" where
  "new_shipment t c addr =
     \<lparr>pk = 0, order_id = 0, tracking_no = t, carrier = c, status = PENDING,
      shipped_at = None, delivered_at = None, created_at = 0, updated_at = 0,
      shipping_address = addr, estimated_delivery = None, actual_weight = None,
      notes_text = None\<rparr>"

section \<open>The inbound consumer (shipment/management/rabbitmq\_consumer.py)\<close>

text \<open>
  The handlers import what they need inside their \<open>try\<close> block, relative to the
  package of their own module: \<open>from .models import Shipment\<close> and
  \<open>from .rabbitmq_publisher import publish_event\<close>. A relative import resolves
  to a module of that package or raises \<open>ModuleNotFoundError\<close>. \<open>repo_modules\<close>
  lists the modules of the repository under their dotted names.
\<close>

definition repo_modules :: "string list" where
  "repo_modules =
     [''main.urls'', ''shipment.admin'', ''shipment.health_urls'', ''shipment.models'',
      ''shipment.rabbitmq_publisher'', ''shipment.serializers'', ''shipment.views'',
      ''shipment.management.rabbitmq_consumer'',
      ''shipment.management.commands.consume_shipping_events'']"

text \<open>The package of \<open>shipment/management/rabbitmq_consumer.py\<close>.\<close>

definition consumer_package :: string where
  "consumer_package = ''shipment.management''"

text \<open>\<open>from .name import ...\<close> in a module of package \<open>package\<close>.\<close>

definition import_from :: "string \<Rightarrow> string \<Rightarrow> error + unit" where
  "import_from package name =
     (if package @ ''.'' @ name \<in> set repo_modules then Inr ()
      else Inl ModuleNotFoundError)"

text \<open>
  The JSON parser is not modelled: a message body is given by what \<open>json.loads\<close>
  makes of it, \<open>None\<close> when it raises or yields something other than an object.
  \<open>m_order_id\<close> is \<open>message.get('order_id')\<close>; \<open>m_shipping_address\<close> is \<open>None\<close>
  when the key is absent and \<open>Some None\<close> when it is JSON null.
\<close>

record message =
  m_order_id :: "int option"
  m_shipping_address :: "string option option"

type_synonym body = "message option"

definition json_loads :: "body \<Rightarrow> error + message" where
  "json_loads b = (case b of None \<Rightarrow> Inl JSONDecodeError | Some m \<Rightarrow> Inr m)"

text \<open>What the handler tells the broker: \<open>basic_ack\<close>, or \<open>basic_nack\<close> with its
  \<open>requeue\<close> flag.\<close>

datatype reply = Ack | Nack bool

text \<open>
  \<open>Meta.ordering = ['-created_at']\<close>: a query set of shipments comes newest
  first. Rows created at the same time come in an order the database is free to
  choose; here the one stored later comes first.
\<close>

definition default_ordering :: "shipment list \<Rightarrow> shipment list" where
  "default_ordering rows = rev (sort_key created_at rows)"

text \<open>\<open>Shipment.objects.filter(order_id=order_id,
  status__in=['PENDING', 'PICKED_UP', 'IN_TRANSIT'])\<close>; a null \<open>order_id\<close> matches
  no row.\<close>

definition active_for_order :: "int option \<Rightarrow> shipment list \<Rightarrow> shipment list" where
  "active_for_order oid rows =
     default_ordering
       (filter (\<lambda>s. Some (order_id s) = oid \<and> status s \<in> set [PENDING, PICKED_UP, IN_TRANSIT])
          rows)"

definition created_payload :: "shipment \<Rightarrow> payload" where
  "created_payload s =
     [(''shipment_id'', JInt (int (pk s))),
      (''order_id'', JInt (order_id s)),
      (''tracking_no'', JStr (tracking_no s)),
      (''carrier'', JStr (carrier_str (carrier s))),
      (''status'', JStr (status_str (status s)))]"

text \<open>
  \<open>handle_order_confirmed\<close>. Every exception raised inside the \<open>try\<close> block, the
  failure of an import included, ends in \<open>basic_nack\<close> with \<open>requeue=True\<close>. The
  result is \<open>None\<close> when the allocation loop does not return.
\<close>

definition handle_order_confirmed ::
  "ctx \<Rightarrow> (nat \<Rightarrow> nat) \<Rightarrow> body \<Rightarrow> world \<Rightarrow> (reply \<times> world) option" where
  "handle_order_confirmed c rng b w =
     (case import_from consumer_package ''models'' of
        Inl e \<Rightarrow> Some (Nack True, w)
      | Inr u \<Rightarrow>
     (case json_loads b of
        Inl e \<Rightarrow> Some (Nack True, w)
      | Inr msg \<Rightarrow>
          if active_for_order (m_order_id msg) (shipments w) \<noteq> [] then Some (Ack, w)
          else
            (case generate_tracking_no rng (shipments w) of
               None \<Rightarrow> None
             | Some t \<Rightarrow>
                 (case objects_create (now c) (m_order_id msg)
                         (new_shipment t DHL
                            (case m_shipping_address msg of None \<Rightarrow> Some [] | Some a \<Rightarrow> a)) w of
                    Inl e \<Rightarrow> Some (Nack True, w)
                  | Inr (s, w1) \<Rightarrow>
                      (case import_from consumer_package ''rabbitmq_publisher'' of
                         Inl e \<Rightarrow> Some (Nack True, w1)
                       | Inr u \<Rightarrow>
                           Some (Ack, snd (publish_event c ''shipment.created''
                                             (created_payload s) w1)))))))"

definition cancelled_payload :: "shipment \<Rightarrow> payload" where
  "cancelled_payload s =
     [(''shipment_id'', JInt (int (pk s))),
      (''order_id'', JInt (order_id s)),
      (''tracking_no'', JStr (tracking_no s)),
      (''reason'', JStr ''order_cancelled'')]"

text \<open>What the loop of \<open>handle_order_cancelled\<close> does to one instance:
  \<open>shipment.status = 'CANCELLED'; shipment.save()\<close>.\<close>

definition cancel_instance :: "nat \<Rightarrow> shipment \<Rightarrow> shipment" where
  "cancel_instance t s = save t (s\<lparr>status := CANCELLED\<rparr>)"

text \<open>The loop over the query set: each instance is cancelled and stored, then
  the publisher is imported and the event published. \<open>Inl\<close> is an exception that
  leaves the loop.\<close>

fun cancel_loop :: "ctx \<Rightarrow> shipment list \<Rightarrow> world \<Rightarrow> (error + unit) \<times> world" where
  "cancel_loop c [] w = (Inr (), w)"
| "cancel_loop c (s # qs) w =
     (let s' = cancel_instance (now c) s;
          w1 = w\<lparr>shipments := db_update s' (shipments w)\<rparr>
      in case import_from consumer_package ''rabbitmq_publisher'' of
           Inl e \<Rightarrow> (Inl e, w1)
         | Inr u \<Rightarrow>
             cancel_loop c qs
               (snd (publish_event c ''shipment.cancelled'' (cancelled_payload s') w1)))"

text \<open>\<open>handle_order_cancelled\<close>, with the same \<open>except\<close> clause.\<close>

definition handle_order_cancelled :: "ctx \<Rightarrow> body \<Rightarrow> world \<Rightarrow> reply \<times> world" where
  "handle_order_cancelled c b w =
     (case import_from consumer_package ''models'' of
        Inl e \<Rightarrow> (Nack True, w)
      | Inr u \<Rightarrow>
     (case json_loads b of
        Inl e \<Rightarrow> (Nack True, w)
      | Inr msg \<Rightarrow>
          (case cancel_loop c (active_for_order (m_order_id msg) (shipments w)) w of
             (Inl e, w') \<Rightarrow> (Nack True, w')
           | (Inr u, w') \<Rightarrow> (Ack, w'))))"


section \<open>The serializers and the view set (shipment/serializers.py, views.py)\<close>

text \<open>
  The data of a create request, after field validation: the six fields of
  \<open>ShipmentCreateSerializer.Meta\<close>.
\<close>

record create_request =
  c_order_id :: int
  c_carrier :: carrier
  c_shipping_address :: "string option"
  c_estimated_delivery :: "nat option"
  c_actual_weight :: "int option"
  c_notes :: "string option"

text \<open>\<open>ShipmentCreateSerializer.create\<close>.\<close>

definition serializer_create ::
  "nat \<Rightarrow> (nat \<Rightarrow> nat) \<Rightarrow> create_request \<Rightarrow> world \<Rightarrow> (error + (shipment \<times> world)) option" where
  "serializer_create t rng rq w =
     (case generate_tracking_no rng (shipments w) of
        None \<Rightarrow> None
      | Some trk \<Rightarrow>
          Some (objects_create t (Some (c_order_id rq))
                  ((new_shipment trk (c_carrier rq) (c_shipping_address rq))
                     \<lparr>estimated_delivery := c_estimated_delivery rq,
                      actual_weight := c_actual_weight rq,
                      notes_text := c_notes rq\<rparr>) w))"

text \<open>\<open>ShipmentViewSet.create\<close>; the payload also carries \<open>created_at\<close>.\<close>

definition views_create ::
  "ctx \<Rightarrow> (nat \<Rightarrow> nat) \<Rightarrow> create_request \<Rightarrow> world \<Rightarrow> ((error + shipment) \<times> world) option" where
  "views_create c rng rq w =
     (case serializer_create (now c) rng rq w of
        None \<Rightarrow> None
      | Some (Inl e) \<Rightarrow> Some (Inl e, w)
      | Some (Inr (s, w1)) \<Rightarrow>
          Some (Inr s, snd (publish_event c ''shipment.created''
                  (created_payload s @ [(''created_at'', JTime (created_at s))]) w1)))"

text \<open>
  The body of an update request. A field is \<open>None\<close> when the request does not
  supply it; \<open>notes\<close> and \<open>actual_weight\<close> may also be supplied as null. The fields
  from \<open>u_order_id\<close> on are not fields of \<open>ShipmentUpdateSerializer\<close>: a request may
  carry them all the same.
\<close>

record update_request =
  u_status :: "status option"
  u_location :: "string option"
  u_description :: "string option"
  u_notes :: "string option option"
  u_actual_weight :: "int option option"
  u_order_id :: "int option"
  u_tracking_no :: "string option"
  u_carrier :: "carrier option"
  u_shipped_at :: "nat option"
  u_delivered_at :: "nat option"
  u_created_at :: "nat option"

text \<open>\<open>validated_data\<close>: the fields of \<open>ShipmentUpdateSerializer.Meta\<close> only.\<close>

record validated_data =
  v_status :: "status option"
  v_location :: "string option"
  v_description :: "string option"
  v_notes :: "string option option"
  v_actual_weight :: "int option option"

text \<open>
  Python's \<open>str.strip()\<close>: white space is removed at both ends. Strings are over
  the code points below 256, of which these are white space.
\<close>

definition is_space :: "char \<Rightarrow> bool" where
  "is_space ch =
     (ch \<in> set [CHR 0x09, CHR 0x0A, CHR 0x0B, CHR 0x0C, CHR 0x0D, CHR 0x1C, CHR 0x1D,
                CHR 0x1E, CHR 0x1F, CHR 0x20, CHR 0x85, CHR 0xA0])"

definition strip :: "string \<Rightarrow> string" where
  "strip v = rev (dropWhile is_space (rev (dropWhile is_space v)))"

text \<open>
  A \<open>CharField\<close> of the serializer (\<open>location\<close>, \<open>description\<close>, \<open>notes\<close>; blank is
  allowed on all three): the text is trimmed, and a null character is refused.
\<close>

definition char_field :: "string \<Rightarrow> error + string" where
  "char_field v =
     (if CHR 0x00 \<in> set v then Inl (ValidationError ''Null characters are not allowed.'')
      else Inr (strip v))"

text \<open>
  \<open>DecimalField(max_digits=10, decimal_places=2)\<close> on a value given in
  hundredths: at most eight digits stand before the decimal point. (A text with
  more than two decimal places is refused too; it has no value in hundredths and
  is not a request of this model.)
\<close>

definition decimal_field :: "int \<Rightarrow> error + int" where
  "decimal_field v =
     (if \<bar>v\<bar> < 10 ^ 10 then Inr v
      else Inl (ValidationError
                  ''Ensure that there are no more than 8 digits before the decimal point.''))"

text \<open>A field that the request need not supply, and one that may be null.\<close>

definition optional :: "('a \<Rightarrow> error + 'b) \<Rightarrow> 'a option \<Rightarrow> error + 'b option" where
  "optional f x =
     (case x of
        None \<Rightarrow> Inr None
      | Some v \<Rightarrow> (case f v of Inl e \<Rightarrow> Inl e | Inr y \<Rightarrow> Inr (Some y)))"

text \<open>
  \<open>serializer.is_valid(raise_exception=True)\<close>: the declared fields are
  validated in the order of \<open>Meta.fields\<close>, the status through \<open>validate_status\<close>;
  everything else in the request is dropped. The framework reports the errors
  of all fields together; the first of them stands for the report here.
\<close>

definition is_valid :: "shipment \<Rightarrow> update_request \<Rightarrow> error + validated_data" where
  "is_valid instance rq =
     (case optional (validate_status (Some instance)) (u_status rq) of
        Inl e \<Rightarrow> Inl e
      | Inr st \<Rightarrow>
     (case optional char_field (u_location rq) of
        Inl e \<Rightarrow> Inl e
      | Inr loc \<Rightarrow>
     (case optional char_field (u_description rq) of
        Inl e \<Rightarrow> Inl e
      | Inr desc \<Rightarrow>
     (case optional (optional char_field) (u_notes rq) of
        Inl e \<Rightarrow> Inl e
      | Inr n \<Rightarrow>
     (case optional (optional decimal_field) (u_actual_weight rq) of
        Inl e \<Rightarrow> Inl e
      | Inr a \<Rightarrow>
          Inr \<lparr>v_status = st, v_location = loc, v_description = desc,
               v_notes = n, v_actual_weight = a\<rparr>)))))"

text \<open>\<open>ModelSerializer.update\<close>: every remaining item of \<open>validated_data\<close> is set
  on the instance, which is then saved.\<close>

definition set_attrs :: "validated_data \<Rightarrow> shipment \<Rightarrow> shipment" where
  "set_attrs vd s =
     (let s1 = (case v_status vd of None \<Rightarrow> s | Some st \<Rightarrow> s\<lparr>status := st\<rparr>);
          s2 = (case v_notes vd of None \<Rightarrow> s1 | Some n \<Rightarrow> s1\<lparr>notes_text := n\<rparr>)
      in (case v_actual_weight vd of None \<Rightarrow> s2 | Some a \<Rightarrow> s2\<lparr>actual_weight := a\<rparr>))"

definition update_instance :: "nat \<Rightarrow> validated_data \<Rightarrow> shipment \<Rightarrow> shipment" where
  "update_instance t vd s = save t (set_attrs vd s)"

text \<open>Python's \<open>x or d\<close> on an optional string: \<open>d\<close> when \<open>x\<close> is \<open>None\<close> or empty.\<close>

definition or_else :: "string option \<Rightarrow> string \<Rightarrow> string" where
  "or_else x d = (case x of None \<Rightarrow> d | Some v \<Rightarrow> if v = [] then d else v)"

text \<open>\<open>ShipmentUpdateSerializer.update\<close>.\<close>

definition serializer_update ::
  "nat \<Rightarrow> validated_data \<Rightarrow> shipment \<Rightarrow> world \<Rightarrow> shipment \<times> world" where
  "serializer_update t vd instance w =
     (let location = v_location vd;
          description = v_description vd;
          old_status = status instance;
          s = update_instance t vd instance;
          w1 = w\<lparr>shipments := db_update s (shipments w)\<rparr>
      in if old_status \<noteq> status s
         then (s, w1\<lparr>history := history w1 @
                    [\<lparr>h_pk = next_history_pk w1, h_shipment = pk s, h_status = status s,
                      h_location = or_else location [],
                      h_description =
                        or_else description (''Status updated to '' @ status_str (status s)),
                      h_timestamp = t\<rparr>],
                  next_history_pk := Suc (next_history_pk w1)\<rparr>)
         else (s, w1))"

definition event_data :: "shipment \<Rightarrow> status \<Rightarrow> payload" where
  "event_data s old_status =
     [(''shipment_id'', JInt (int (pk s))),
      (''order_id'', JInt (order_id s)),
      (''tracking_no'', JStr (tracking_no s)),
      (''carrier'', JStr (carrier_str (carrier s))),
      (''old_status'', JStr (status_str old_status)),
      (''new_status'', JStr (status_str (status s))),
      (''updated_at'', JTime (updated_at s))]"

text \<open>\<open>ShipmentViewSet._publish_status_event\<close>: the \<open>if\<close>/\<open>elif\<close> chain on the
  new status, then the generic event. The delivered branch adds \<open>delivered_at\<close> to
  the dictionary, which the generic event then carries too.\<close>

definition publish_status_event :: "ctx \<Rightarrow> shipment \<Rightarrow> status \<Rightarrow> world \<Rightarrow> world" where
  "publish_status_event c s old_status w =
     (let d = event_data s old_status;
          d' = (if status s = DELIVERED
                then d @ [(''delivered_at'',
                           (case delivered_at s of None \<Rightarrow> JNone | Some t \<Rightarrow> JTime t))]
                else d);
          w1 = (if status s = PICKED_UP then snd (publish_event c ''shipment.picked_up'' d w)
                else if status s = IN_TRANSIT then snd (publish_event c ''shipment.in_transit'' d w)
                else if status s = OUT_FOR_DELIVERY
                  then snd (publish_event c ''shipment.out_for_delivery'' d w)
                else if status s = DELIVERED then snd (publish_event c ''shipment.delivered'' d' w)
                else if status s = CANCELLED then snd (publish_event c ''shipment.cancelled'' d w)
                else if status s = FAILED then snd (publish_event c ''shipment.failed'' d w)
                else w)
      in snd (publish_event c ''shipment.status_updated'' d' w1))"

text \<open>\<open>self.get_object()\<close>: the row with the primary key of the URL, or HTTP 404.\<close>

definition get_object :: "nat \<Rightarrow> world \<Rightarrow> error + shipment" where
  "get_object p w =
     (case filter (\<lambda>s. pk s = p) (shipments w) of
        [] \<Rightarrow> Inl Http404
      | s # _ \<Rightarrow> Inr s)"

text \<open>\<open>ShipmentViewSet.update\<close> (and \<open>partial_update\<close>, which only sets \<open>partial\<close>:
  no field of the serializer is required, so both validate alike).\<close>

definition views_update ::
  "ctx \<Rightarrow> nat \<Rightarrow> update_request \<Rightarrow> world \<Rightarrow> (error + shipment) \<times> world" where
  "views_update c p rq w =
     (case get_object p w of
        Inl e \<Rightarrow> (Inl e, w)
      | Inr instance \<Rightarrow>
          (let old_status = status instance in
           case is_valid instance rq of
             Inl e \<Rightarrow> (Inl e, w)
           | Inr vd \<Rightarrow>
               (case serializer_update (now c) vd instance w of
                  (s, w1) \<Rightarrow>
                    (Inr s, if old_status \<noteq> status s
                            then publish_status_event c s old_status w1 else w1))))"

section \<open>The life of one shipment\<close>

text \<open>
  The code that writes to an existing shipment: an update request through the
  view set (rejected requests change nothing) and the loop of
  \<open>handle_order_cancelled\<close>, which cancels the active shipments of the order.
  \<open>apply_op\<close> is what each does to the row, \<open>lifecycle\<close> the list of the states the
  row goes through, the first one included.
\<close>

datatype ship_op = ApiUpdate update_request | OrderCancelled

definition apply_op :: "nat \<Rightarrow> ship_op \<Rightarrow> shipment \<Rightarrow> shipment" where
  "apply_op t op s =
     (case op of
        ApiUpdate rq \<Rightarrow>
          (case is_valid s rq of Inl e \<Rightarrow> s | Inr vd \<Rightarrow> update_instance t vd s)
      | OrderCancelled \<Rightarrow>
          if status s \<in> set [PENDING, PICKED_UP, IN_TRANSIT] then cancel_instance t s else s)"

fun lifecycle :: "shipment \<Rightarrow> (nat \<times> ship_op) list \<Rightarrow> shipment list" where
  "lifecycle s [] = [s]"
| "lifecycle s ((t, op) # ops) = s # lifecycle (apply_op t op s) ops"

text \<open>The invariant every saved shipment satisfies: a status that sets a
  timestamp never stands without it.\<close>

definition good :: "shipment \<Rightarrow> bool" where
  "good s = ((status s \<in> {PICKED_UP, IN_TRANSIT} \<longrightarrow> shipped_at s \<noteq> None)
             \<and> (status s = DELIVERED \<longrightarrow> delivered_at s \<noteq> None))"

section \<open>Concrete states\<close>

text \<open>
  Small concrete inputs on which the functions above are evaluated: an empty
  database, a database holding one shipment of order 42 in a given status, the
  message of that order, and contexts with a healthy broker, with an unreachable
  broker, and with publishing switched off.
\<close>

definition empty_world :: world where
  "empty_world =
     \<lparr>shipments = [], history = [], next_shipment_pk = 1, next_history_pk = 1,
      publisher_open = False, outbox = [], publish_calls = []\<rparr>"

definition shipment_42 :: "status \<Rightarrow> shipment" where
  "shipment_42 st =
     (new_shipment ''TRK5555'' DHL (Some ''12 Main St''))
       \<lparr>pk := 1, order_id := 42, status := st,
        shipped_at := (if st = PENDING then None else Some 11),
        created_at := 10, updated_at := 11\<rparr>"

definition world_42 :: "status \<Rightarrow> world" where
  "world_42 st = empty_world\<lparr>shipments := [shipment_42 st], next_shipment_pk := 2\<rparr>"

definition msg_42 :: message where
  "msg_42 = \<lparr>m_order_id = Some 42, m_shipping_address = None\<rparr>"

definition ctx_up :: "nat \<Rightarrow> ctx" where
  "ctx_up t =
     \<lparr>rabbitmq_enabled = True,
      broker = (\<lambda>k. \<lparr>connect_ok = True, publish_ok = True\<rparr>), now = t\<rparr>"

definition ctx_down :: "nat \<Rightarrow> ctx" where
  "ctx_down t =
     \<lparr>rabbitmq_enabled = True,
      broker = (\<lambda>k. \<lparr>connect_ok = False, publish_ok = False\<rparr>), now = t\<rparr>"

definition ctx_off :: "nat \<Rightarrow> ctx" where
  "ctx_off t =
     \<lparr>rabbitmq_enabled = False,
      broker = (\<lambda>k. \<lparr>connect_ok = True, publish_ok = True\<rparr>), now = t\<rparr>"

text \<open>An update request that supplies the field \<open>status\<close> and nothing else.\<close>

definition status_request :: "status \<Rightarrow> update_request" where
  "status_request st =
     \<lparr>u_status = Some st, u_location = None, u_description = None, u_notes = None,
      u_actual_weight = None, u_order_id = None, u_tracking_no = None, u_carrier = None,
      u_shipped_at = None, u_delivered_at = None, u_created_at = None\<rparr>"

text \<open>An update request that changes the notes only, and the four requests that
  take a shipment from PENDING to DELIVERED, with the times they are made at.\<close>

definition notes_request :: "string \<Rightarrow> update_request" where
  "notes_request n =
     \<lparr>u_status = None, u_location = None, u_description = None, u_notes = Some (Some n),
      u_actual_weight = None, u_order_id = None, u_tracking_no = None, u_carrier = None,
      u_shipped_at = None, u_delivered_at = None, u_created_at = None\<rparr>"

definition delivery_ops :: "(nat \<times> ship_op) list" where
  "delivery_ops =
     [(20, ApiUpdate (status_request PICKED_UP)), (21, ApiUpdate (status_request IN_TRANSIT)),
      (22, ApiUpdate (status_request OUT_FOR_DELIVERY)),
      (23, ApiUpdate (status_request DELIVERED))]"

text \<open>A table in which \<open>TRK1000\<close>, the number the generator \<open>id\<close> draws first, is
  taken.\<close>

definition taken_rows :: "shipment list" where
  "taken_rows =
     [(new_shipment ''TRK1000'' DHL (Some []))
        \<lparr>pk := 1, order_id := 42, created_at := 20, updated_at := 20\<rparr>]"

text \<open>A table in which every tracking number the allocation can draw is taken:
  one shipment for each of \<open>TRK1000\<close> to \<open>TRK9999\<close>.\<close>

definition exhausted_rows :: "shipment list" where
  "exhausted_rows =
     map (\<lambda>n. (new_shipment (''TRK'' @ str_nat n) DHL None)\<lparr>pk := n, order_id := int n\<rparr>)
       [1000..<10000]"

text \<open>The status-specific routing key of each status, as the specification lists
  them (no transition leads to PENDING, for which there is none).\<close>

fun spec_status_event :: "status \<Rightarrow> string" where
  "spec_status_event PICKED_UP = ''shipment.picked_up''"
| "spec_status_event IN_TRANSIT = ''shipment.in_transit''"
| "spec_status_event OUT_FOR_DELIVERY = ''shipment.out_for_delivery''"
| "spec_status_event DELIVERED = ''shipment.delivered''"
| "spec_status_event CANCELLED = ''shipment.cancelled''"
| "spec_status_event FAILED = ''shipment.failed''"
| "spec_status_event PENDING = []"

section \<open>Properties of the transition validation\<close>

lemma valid_transitions_spec: "set (valid_transitions s) = spec_transition_table s"
  by (cases s) auto

text \<open>
  Claim C1. For every pair of statuses (from, to), validating a requested status
  \<open>to\<close> against a shipment whose status is \<open>from\<close> accepts (returns \<open>to\<close>) iff \<open>to\<close> is
  in the transition table entry of \<open>from\<close> or equals \<open>from\<close>; otherwise it raises
  the invalid-transition error. In particular every requested status other than
  the current one is rejected for the terminal states DELIVERED and CANCELLED.
\<close>

theorem validate_status_iff_table:
  "(validate_status (Some inst) req = Inr req)
     = (req \<in> spec_transition_table (status inst) \<or> req = status inst)
   \<and> (validate_status (Some inst) req = Inr req
        \<or> is_invalid_transition (validate_status (Some inst) req) (status inst) req)
   \<and> (status inst \<in> {DELIVERED, CANCELLED} \<and> req \<noteq> status inst
        \<longrightarrow> is_invalid_transition (validate_status (Some inst) req) (status inst) req)"
proof -
  have tbl: "set (valid_transitions (status inst)) = spec_transition_table (status inst)"
    by (rule valid_transitions_spec)
  have a: "(validate_status (Some inst) req = Inr req)
     = (req \<in> spec_transition_table (status inst) \<or> req = status inst)"
    using tbl by (auto simp: validate_status_def Let_def)
  have b: "validate_status (Some inst) req = Inr req
        \<or> is_invalid_transition (validate_status (Some inst) req) (status inst) req"
    by (simp add: validate_status_def Let_def is_invalid_transition_def)
  have c: "status inst \<in> {DELIVERED, CANCELLED} \<and> req \<noteq> status inst
        \<longrightarrow> is_invalid_transition (validate_status (Some inst) req) (status inst) req"
    by (auto simp: validate_status_def Let_def is_invalid_transition_def)
  from a b c show ?thesis by blast
qed

theorem validate_status_iff_table_witness:
  "status (new_shipment ''TRK1000'' DHL None\<lparr>status := DELIVERED\<rparr>) \<in> {DELIVERED, CANCELLED}
   \<and> PENDING \<noteq> status (new_shipment ''TRK1000'' DHL None\<lparr>status := DELIVERED\<rparr>)
   \<and> is_invalid_transition
        (validate_status (Some (new_shipment ''TRK1000'' DHL None\<lparr>status := DELIVERED\<rparr>)) PENDING)
        DELIVERED PENDING"
  using validate_status_iff_table
          [of "new_shipment ''TRK1000'' DHL None\<lparr>status := DELIVERED\<rparr>" PENDING]
  by (simp add: new_shipment_def)

section \<open>Tracking-number allocation\<close>

lemma is_digit_digit_char: "d < 10 \<Longrightarrow> is_digit (digit_char d)"
  unfolding is_digit_def digit_char_def by (rule nth_mem) simp

lemma str_nat_4:
  assumes "1000 \<le> n" "n \<le> 9999"
  shows "str_nat n = [digit_char (n div 1000), digit_char (n div 100 mod 10),
                      digit_char (n div 10 mod 10), digit_char (n mod 10)]"
proof -
  have a: "\<not> n < 10" "\<not> n div 10 < 10" "\<not> n div 10 div 10 < 10" "n div 10 div 10 div 10 < 10"
    using assms by auto
  have b: "n div 10 div 10 = n div 100" "n div 10 div 10 div 10 = n div 1000"
    by (simp_all add: div_mult2_eq[symmetric])
  show ?thesis
    using a b
    by (simp add: str_nat.simps[of n] str_nat.simps[of "n div 10"]
          str_nat.simps[of "n div 100"] str_nat.simps[of "n div 1000"])
qed

lemma randint_range: "a \<le> b \<Longrightarrow> a \<le> randint a b r \<and> randint a b r \<le> b"
proof -
  assume ab: "a \<le> b"
  have "r mod (b - a + 1) < b - a + 1" by simp
  with ab show ?thesis unfolding randint_def by linarith
qed

lemma new_tracking_no_shape: "trk_4_digits (new_tracking_no r)"
proof -
  let ?n = "randint 1000 9999 r"
  have r: "1000 \<le> ?n" "?n \<le> 9999" using randint_range[of 1000 9999 r] by simp_all
  have d: "?n div 1000 < 10" "?n div 100 mod 10 < 10" "?n div 10 mod 10 < 10" "?n mod 10 < 10"
    using r by auto
  show ?thesis
    unfolding trk_4_digits_def new_tracking_no_def str_nat_4[OF r]
    using d by (simp add: is_digit_digit_char)
qed

lemma resample_Some:
  assumes r: "resample rng rows i t = Some t'"
  shows "\<not> tracking_no_exists rows t' \<and> (t' = t \<or> (\<exists>k\<ge>i. t' = new_tracking_no (rng k)))"
proof -
  let ?P = "\<lambda>(g::nat \<Rightarrow> nat) rs (j::nat) u v.
    \<not> tracking_no_exists rs v \<and> (v = u \<or> (\<exists>k\<ge>j. v = new_tracking_no (g k)))"
  have step: "?P g rs j u v"
    if ih: "\<And>g rs j u v. f g rs j u = Some v \<Longrightarrow> ?P g rs j u v"
    and eq: "(if tracking_no_exists rs u then f g rs (Suc j) (new_tracking_no (g j)) else Some u)
              = Some v"
    for f g rs j u v
  proof (cases "tracking_no_exists rs u")
    case True
    with eq have "f g rs (Suc j) (new_tracking_no (g j)) = Some v" by simp
    from ih[OF this] show ?thesis by (metis Suc_leD order_refl)
  next
    case False
    with eq show ?thesis by simp
  qed
  show ?thesis
    by (rule resample.raw_induct[where P = ?P, OF step r])
qed

lemma resample_first_free:
  assumes "\<not> tracking_no_exists rows (new_tracking_no (rng k))"
    and "\<forall>j. i \<le> j \<and> j < k \<longrightarrow> tracking_no_exists rows (new_tracking_no (rng j))"
    and "i \<le> k" and "tracking_no_exists rows t"
  shows "resample rng rows i t = Some (new_tracking_no (rng k))"
  using assms
proof (induction "k - i" arbitrary: i t)
  case 0
  then have "i = k" by simp
  with 0 show ?case
    by (simp add: resample.simps[of rng rows k t] resample.simps[of rng rows "Suc k"])
next
  case (Suc d)
  then have lt: "i < k" by simp
  with Suc.prems have c: "tracking_no_exists rows (new_tracking_no (rng i))" by simp
  have "resample rng rows (Suc i) (new_tracking_no (rng i)) = Some (new_tracking_no (rng k))"
  proof (rule Suc.hyps(1))
    show "d = k - Suc i" using Suc.hyps(2) by simp
    show "\<not> tracking_no_exists rows (new_tracking_no (rng k))" by (rule Suc.prems(1))
    show "\<forall>j. Suc i \<le> j \<and> j < k \<longrightarrow> tracking_no_exists rows (new_tracking_no (rng j))"
      using Suc.prems(2) by simp
    show "Suc i \<le> k" using lt by simp
    show "tracking_no_exists rows (new_tracking_no (rng i))" by (rule c)
  qed
  with Suc.prems(4) show ?case by (simp add: resample.simps[of rng rows i t])
qed

lemma generate_tracking_no_Some:
  assumes "generate_tracking_no rng rows = Some t"
  shows "\<not> tracking_no_exists rows t \<and> (\<exists>k. t = new_tracking_no (rng k))"
  using resample_Some[of rng rows 1 "new_tracking_no (rng 0)" t] assms
  unfolding generate_tracking_no_def by auto

lemma generate_tracking_no_least:
  assumes "\<not> tracking_no_exists rows (new_tracking_no (rng k))"
  shows "generate_tracking_no rng rows
         = Some (new_tracking_no
                   (rng (LEAST j. \<not> tracking_no_exists rows (new_tracking_no (rng j)))))"
proof -
  define m where "m = (LEAST j. \<not> tracking_no_exists rows (new_tracking_no (rng j)))"
  have free: "\<not> tracking_no_exists rows (new_tracking_no (rng m))"
    unfolding m_def using assms by (rule LeastI)
  have below: "\<forall>j. j < m \<longrightarrow> tracking_no_exists rows (new_tracking_no (rng j))"
    unfolding m_def using not_less_Least by blast
  have "generate_tracking_no rng rows = Some (new_tracking_no (rng m))"
  proof (cases m)
    case 0
    with free show ?thesis
      by (simp add: generate_tracking_no_def resample.simps[of rng rows "Suc 0"])
  next
    case (Suc d)
    have c0: "tracking_no_exists rows (new_tracking_no (rng 0))" using below Suc by simp
    have "resample rng rows 1 (new_tracking_no (rng 0)) = Some (new_tracking_no (rng m))"
      by (rule resample_first_free) (use free below Suc c0 in auto)
    then show ?thesis by (simp add: generate_tracking_no_def)
  qed
  then show ?thesis unfolding m_def .
qed

lemma new_tracking_no_range:
  "\<exists>n. 1000 \<le> n \<and> n \<le> 9999 \<and> new_tracking_no r = ''TRK'' @ str_nat n"
  using randint_range[of 1000 9999 r] unfolding new_tracking_no_def by auto

text \<open>
  Claim C6, as the code has it. The allocation draws a number from 1000 to 9999
  and draws again as long as \<open>TRK\<close> followed by the number drawn is the tracking
  number of a stored shipment. What it returns is \<open>TRK\<close> followed by the four
  digits of the first draw that is free. It has no retry bound and no exhaustion
  error: when some draw is free it returns that of the first free draw, and when
  every draw collides it never returns.
\<close>

theorem generate_tracking_no_unbounded:
  "(\<forall>t. generate_tracking_no rng rows = Some t
        \<longrightarrow> (\<exists>n. 1000 \<le> n \<and> n \<le> 9999 \<and> t = ''TRK'' @ str_nat n)
            \<and> trk_4_digits t \<and> \<not> tracking_no_exists rows t)
   \<and> ((\<exists>k. \<not> tracking_no_exists rows (new_tracking_no (rng k)))
        \<longrightarrow> generate_tracking_no rng rows
            = Some (new_tracking_no
                      (rng (LEAST k. \<not> tracking_no_exists rows (new_tracking_no (rng k))))))
   \<and> ((\<forall>k. tracking_no_exists rows (new_tracking_no (rng k)))
        \<longrightarrow> generate_tracking_no rng rows = None)
   \<and> ((\<exists>t. generate_tracking_no rng rows = Some t)
        = (\<exists>k. \<not> tracking_no_exists rows (new_tracking_no (rng k))))"
proof -
  have a: "\<forall>t. generate_tracking_no rng rows = Some t
        \<longrightarrow> (\<exists>n. 1000 \<le> n \<and> n \<le> 9999 \<and> t = ''TRK'' @ str_nat n)
            \<and> trk_4_digits t \<and> \<not> tracking_no_exists rows t"
    using generate_tracking_no_Some new_tracking_no_shape new_tracking_no_range by blast
  have b: "(\<exists>k. \<not> tracking_no_exists rows (new_tracking_no (rng k)))
        \<longrightarrow> generate_tracking_no rng rows
            = Some (new_tracking_no
                      (rng (LEAST k. \<not> tracking_no_exists rows (new_tracking_no (rng k)))))"
    using generate_tracking_no_least by blast
  have c: "(\<forall>k. tracking_no_exists rows (new_tracking_no (rng k)))
        \<longrightarrow> generate_tracking_no rng rows = None"
    using generate_tracking_no_Some[of rng rows] by (cases "generate_tracking_no rng rows") auto
  have d: "(\<exists>t. generate_tracking_no rng rows = Some t)
        = (\<exists>k. \<not> tracking_no_exists rows (new_tracking_no (rng k)))"
    using generate_tracking_no_Some generate_tracking_no_least by blast
  from a b c d show ?thesis by blast
qed

lemma new_tracking_no_0: "new_tracking_no 0 = ''TRK1000''"
  by (simp add: new_tracking_no_def randint_def str_nat_4 digit_char_def)

lemma new_tracking_no_1: "new_tracking_no (Suc 0) = ''TRK1001''"
  by (simp add: new_tracking_no_def randint_def str_nat_4 digit_char_def)

text \<open>With \<open>TRK1000\<close> taken and a generator that draws 1000 and then 1001, the first
  draw collides and the second is returned.\<close>

theorem generate_tracking_no_unbounded_witness:
  "tracking_no_exists taken_rows (new_tracking_no (id 0))
   \<and> \<not> tracking_no_exists taken_rows (new_tracking_no (id 1))
   \<and> generate_tracking_no id taken_rows = Some ''TRK1001''
   \<and> (\<exists>n. 1000 \<le> n \<and> n \<le> 9999 \<and> ''TRK1001'' = ''TRK'' @ str_nat n)
   \<and> trk_4_digits ''TRK1001'' \<and> \<not> tracking_no_exists taken_rows ''TRK1001''"
proof -
  have c: "tracking_no_exists taken_rows ''TRK1000''"
    and f: "\<not> tracking_no_exists taken_rows ''TRK1001''"
    by (simp_all add: tracking_no_exists_def taken_rows_def new_shipment_def)
  have g: "generate_tracking_no id taken_rows = Some ''TRK1001''"
    unfolding generate_tracking_no_def
    by (subst resample.simps, subst resample.simps)
       (simp add: new_tracking_no_0 new_tracking_no_1 c f)
  from generate_tracking_no_unbounded[of id taken_rows] g
  have "(\<exists>n. 1000 \<le> n \<and> n \<le> 9999 \<and> ''TRK1001'' = ''TRK'' @ str_nat n)
        \<and> trk_4_digits ''TRK1001''"
    by blast
  with g c f show ?thesis by (simp add: new_tracking_no_0 new_tracking_no_1)
qed

lemma exhausted_rows_collide: "tracking_no_exists exhausted_rows (new_tracking_no r)"
proof -
  let ?n = "randint 1000 9999 r"
  let ?f = "\<lambda>n. (new_shipment (''TRK'' @ str_nat n) DHL None)\<lparr>pk := n, order_id := int n\<rparr>"
  have r: "1000 \<le> ?n" "?n \<le> 9999" using randint_range[of 1000 9999 r] by simp_all
  have "?n \<in> {1000..<10000}" using r by simp
  then have "?f ?n \<in> ?f ` {1000..<10000}" by (rule imageI)
  moreover have "set exhausted_rows = ?f ` {1000..<10000}"
    unfolding exhausted_rows_def by (simp only: set_map set_upt)
  ultimately have mem: "?f ?n \<in> set exhausted_rows" by (simp only:)
  have trk: "tracking_no (?f ?n) = new_tracking_no r"
    by (simp add: new_shipment_def new_tracking_no_def)
  from mem trk have "\<exists>s\<in>set exhausted_rows. tracking_no s = new_tracking_no r" by blast
  then have "filter (\<lambda>s. tracking_no s = new_tracking_no r) exhausted_rows \<noteq> []"
    by (simp only: filter_empty_conv) blast
  then show ?thesis unfolding tracking_no_exists_def .
qed

text \<open>
  With every number from 1000 to 9999 taken, the allocation does not return and
  raises nothing: the claim that exhaustion surfaces as an error fails.
\<close>

theorem allocation_exhausted_counterexample:
  "generate_tracking_no id exhausted_rows = None"
proof (cases "generate_tracking_no id exhausted_rows")
  case None then show ?thesis .
next
  case (Some t)
  from generate_tracking_no_Some[OF Some] exhausted_rows_collide show ?thesis by auto
qed

section \<open>The publisher\<close>

lemmas example_defs = empty_world_def shipment_42_def world_42_def msg_42_def ctx_up_def
  ctx_down_def ctx_off_def new_shipment_def

lemmas publisher_defs = publish_event_def publish_def publish_try_def basic_publish_def close_def

lemma publish_tables:
  "shipments (snd (publish b ev w)) = shipments w
   \<and> history (snd (publish b ev w)) = history w
   \<and> next_shipment_pk (snd (publish b ev w)) = next_shipment_pk w
   \<and> next_history_pk (snd (publish b ev w)) = next_history_pk w
   \<and> publish_calls (snd (publish b ev w)) = publish_calls w"
  by (simp add: publish_def publish_try_def basic_publish_def close_def)

lemma publish_event_tables:
  "shipments (snd (publish_event c et d w)) = shipments w
   \<and> history (snd (publish_event c et d w)) = history w
   \<and> next_shipment_pk (snd (publish_event c et d w)) = next_shipment_pk w
   \<and> next_history_pk (snd (publish_event c et d w)) = next_history_pk w
   \<and> publish_calls (snd (publish_event c et d w)) = publish_calls w @ [(et, d)]"
  by (simp add: publish_event_def Let_def publish_tables)

text \<open>
  Claim C9, as the code has it. With \<open>RABBITMQ_ENABLED\<close> off, \<open>publish_event\<close>
  returns at once without touching the publisher, the broker or the database;
  what it returns is \<open>False\<close>, and the state is the one it was called in, but for
  the record of the call.
\<close>

theorem publish_event_disabled:
  "\<not> rabbitmq_enabled c \<Longrightarrow>
     publish_event c et d w = (False, w\<lparr>publish_calls := publish_calls w @ [(et, d)]\<rparr>)"
  by (simp add: publish_event_def Let_def)

theorem publish_event_disabled_witness:
  "\<not> rabbitmq_enabled (ctx_off 0)
   \<and> publish_event (ctx_off 0) ''shipment.created'' [] empty_world
      = (False, empty_world\<lparr>publish_calls := [(''shipment.created'', [])]\<rparr>)"
  using publish_event_disabled [of "ctx_off 0" "''shipment.created''" "[]" empty_world]
  by (simp add: empty_world_def ctx_off_def)

text \<open>
  The value returned when publishing is off is the one returned when the broker
  cannot be reached, not the one returned after a successful publication.
\<close>

theorem publish_event_disabled_counterexample:
  "fst (publish_event (ctx_off 0) ''shipment.created'' [] empty_world) = False
   \<and> fst (publish_event (ctx_down 0) ''shipment.created'' [] empty_world) = False
   \<and> fst (publish_event (ctx_up 0) ''shipment.created'' [] empty_world) = True"
  by (simp add: publisher_defs Let_def example_defs)

section \<open>The consumer's handlers\<close>

text \<open>
  Neither \<open>shipment.management.models\<close> nor
  \<open>shipment.management.rabbitmq_publisher\<close> is a module of the repository: the
  model and the publisher live one package up. The first statement of both
  handlers therefore raises, and whatever the message and the database, the
  handler rejects the message with \<open>requeue=True\<close> and leaves the state as it is.
\<close>

lemma import_models_fails: "import_from consumer_package ''models'' = Inl ModuleNotFoundError"
  by (simp add: import_from_def consumer_package_def repo_modules_def)

lemma handle_order_confirmed_import: "handle_order_confirmed c rng b w = Some (Nack True, w)"
  by (simp add: handle_order_confirmed_def import_models_fails)

lemma handle_order_cancelled_import: "handle_order_cancelled c b w = (Nack True, w)"
  by (simp add: handle_order_cancelled_def import_models_fails)

text \<open>
  Claim C2. A confirmation for an order that has an active shipment is to be
  consumed as a no-op, and two deliveries for an order without one are to leave
  exactly one shipment. The handler has the guard and the creation, but reaches
  neither: with a PENDING shipment of order 42 stored, the message is not
  acknowledged but rejected and requeued, and on the empty database a delivery
  is rejected as well and stores nothing, however often it is repeated, so that
  order 42 has no shipment after two deliveries.
\<close>

theorem order_confirmed_nacks_on_import:
  "import_from consumer_package ''models'' = Inl ModuleNotFoundError
   \<and> handle_order_confirmed (ctx_up 20) id (Some msg_42) (world_42 PENDING)
       = Some (Nack True, world_42 PENDING)
   \<and> handle_order_confirmed (ctx_up 20) id (Some msg_42) empty_world
       = Some (Nack True, empty_world)
   \<and> handle_order_confirmed (ctx_up 21) id (Some msg_42) empty_world
       = Some (Nack True, empty_world)
   \<and> filter (\<lambda>s. order_id s = 42) (shipments empty_world) = []"
  by (simp add: handle_order_confirmed_def import_models_fails empty_world_def)

text \<open>
  Claim C3. A cancellation of order 42 is to take its active shipments to
  CANCELLED and to emit \<open>shipment.cancelled\<close> for each. The handler has the
  query and the loop, but reaches neither: with a PENDING shipment of order 42
  stored, the message is rejected and requeued, the shipment is still PENDING,
  no history row is written and \<open>publish_event\<close> is not called.
\<close>

theorem order_cancelled_nacks_on_import:
  "import_from consumer_package ''models'' = Inl ModuleNotFoundError
   \<and> handle_order_cancelled (ctx_up 30) (Some msg_42) (world_42 PENDING)
       = (Nack True, world_42 PENDING)
   \<and> map status (shipments (snd (handle_order_cancelled (ctx_up 30) (Some msg_42)
                                    (world_42 PENDING)))) = [PENDING]
   \<and> history (snd (handle_order_cancelled (ctx_up 30) (Some msg_42) (world_42 PENDING))) = []
   \<and> publish_calls (snd (handle_order_cancelled (ctx_up 30) (Some msg_42) (world_42 PENDING)))
       = []"
  by (simp add: handle_order_cancelled_def import_models_fails example_defs)

section \<open>Acknowledgement does not depend on publication\<close>


lemma publish_returns:
  "publish bo ev w = (case publish_try bo ev w of
                        (Inl e, w') \<Rightarrow> (False, close w') | (Inr r, w') \<Rightarrow> (r, w'))"
  by (simp add: publish_def split: prod.splits sum.splits)



section \<open>What an update may write\<close>

lemma save_keeps:
  "pk (save t s) = pk s \<and> order_id (save t s) = order_id s
   \<and> tracking_no (save t s) = tracking_no s \<and> carrier (save t s) = carrier s
   \<and> status (save t s) = status s \<and> created_at (save t s) = created_at s
   \<and> shipping_address (save t s) = shipping_address s
   \<and> estimated_delivery (save t s) = estimated_delivery s
   \<and> actual_weight (save t s) = actual_weight s \<and> notes_text (save t s) = notes_text s
   \<and> updated_at (save t s) = t"
  by (simp add: save_def Let_def)

lemma set_attrs_keeps:
  "pk (set_attrs vd s) = pk s \<and> order_id (set_attrs vd s) = order_id s
   \<and> tracking_no (set_attrs vd s) = tracking_no s \<and> carrier (set_attrs vd s) = carrier s
   \<and> created_at (set_attrs vd s) = created_at s
   \<and> shipped_at (set_attrs vd s) = shipped_at s
   \<and> delivered_at (set_attrs vd s) = delivered_at s
   \<and> shipping_address (set_attrs vd s) = shipping_address s
   \<and> estimated_delivery (set_attrs vd s) = estimated_delivery s"
  by (simp add: set_attrs_def Let_def split: option.splits)

lemma save_timestamps:
  "shipped_at (save t s)
     = (if shipped_at s = None \<and> status s \<in> {PICKED_UP, IN_TRANSIT} then Some t
        else shipped_at s)
   \<and> delivered_at (save t s)
     = (if delivered_at s = None \<and> status s = DELIVERED then Some t else delivered_at s)"
  by (auto simp: save_def Let_def)

lemma update_instance_frame:
  "pk (update_instance t vd s) = pk s
   \<and> order_id (update_instance t vd s) = order_id s
   \<and> tracking_no (update_instance t vd s) = tracking_no s
   \<and> carrier (update_instance t vd s) = carrier s
   \<and> created_at (update_instance t vd s) = created_at s
   \<and> shipping_address (update_instance t vd s) = shipping_address s
   \<and> estimated_delivery (update_instance t vd s) = estimated_delivery s
   \<and> shipped_at (update_instance t vd s)
       = (if shipped_at s = None \<and> status (update_instance t vd s) \<in> {PICKED_UP, IN_TRANSIT}
          then Some t else shipped_at s)
   \<and> delivered_at (update_instance t vd s)
       = (if delivered_at s = None \<and> status (update_instance t vd s) = DELIVERED
          then Some t else delivered_at s)"
  unfolding update_instance_def
  by (simp add: save_keeps save_timestamps set_attrs_keeps)

lemma update_instance_written:
  "status (update_instance t vd s) = (case v_status vd of None \<Rightarrow> status s | Some st \<Rightarrow> st)
   \<and> notes_text (update_instance t vd s)
       = (case v_notes vd of None \<Rightarrow> notes_text s | Some n \<Rightarrow> n)
   \<and> actual_weight (update_instance t vd s)
       = (case v_actual_weight vd of None \<Rightarrow> actual_weight s | Some a \<Rightarrow> a)
   \<and> updated_at (update_instance t vd s) = t"
  unfolding update_instance_def
  by (simp add: save_keeps set_attrs_def Let_def split: option.splits)

lemma optional_Inr:
  assumes "optional f x = Inr y"
  shows "(x = None \<and> y = None) \<or> (\<exists>v r. x = Some v \<and> f v = Inr r \<and> y = Some r)"
  using assms by (auto simp: optional_def split: option.splits sum.splits)

lemma char_field_Inr: "char_field v = Inr r \<Longrightarrow> r = strip v"
  by (auto simp: char_field_def split: if_splits)

lemma decimal_field_Inr: "decimal_field v = Inr r \<Longrightarrow> r = v"
  by (auto simp: decimal_field_def split: if_splits)

lemma validate_status_Inr:
  "validate_status (Some inst) st = Inr r \<Longrightarrow>
     r = st \<and> (st = status inst \<or> st \<in> set (valid_transitions (status inst)))"
  by (auto simp: validate_status_def Let_def split: if_splits)

lemma is_valid_Inr:
  assumes "is_valid inst rq = Inr vd"
  shows "v_status vd = u_status rq
         \<and> (\<forall>st. u_status rq = Some st
               \<longrightarrow> st = status inst \<or> st \<in> set (valid_transitions (status inst)))
         \<and> v_location vd = map_option strip (u_location rq)
         \<and> v_description vd = map_option strip (u_description rq)
         \<and> v_notes vd = map_option (map_option strip) (u_notes rq)
         \<and> v_actual_weight vd = u_actual_weight rq"
proof -
  from assms obtain st loc desc n a where
    st: "optional (validate_status (Some inst)) (u_status rq) = Inr st"
    and loc: "optional char_field (u_location rq) = Inr loc"
    and desc: "optional char_field (u_description rq) = Inr desc"
    and n: "optional (optional char_field) (u_notes rq) = Inr n"
    and a: "optional (optional decimal_field) (u_actual_weight rq) = Inr a"
    and vd: "vd = \<lparr>v_status = st, v_location = loc, v_description = desc,
                   v_notes = n, v_actual_weight = a\<rparr>"
    by (auto simp: is_valid_def split: sum.splits)
  have 1: "st = u_status rq
           \<and> (\<forall>x. u_status rq = Some x
                 \<longrightarrow> x = status inst \<or> x \<in> set (valid_transitions (status inst)))"
    using optional_Inr[OF st] by (auto dest: validate_status_Inr)
  have 2: "loc = map_option strip (u_location rq)"
    using optional_Inr[OF loc] by (auto dest: char_field_Inr)
  have 3: "desc = map_option strip (u_description rq)"
    using optional_Inr[OF desc] by (auto dest: char_field_Inr)
  have 4: "n = map_option (map_option strip) (u_notes rq)"
    using optional_Inr[OF n] by (auto dest!: optional_Inr dest: char_field_Inr)
  have 5: "a = u_actual_weight rq"
    using optional_Inr[OF a] by (auto dest!: optional_Inr dest: decimal_field_Inr)
  from 1 2 3 4 5 show ?thesis unfolding vd by simp
qed

lemma is_valid_extra_fields:
  "is_valid inst (rq\<lparr>u_order_id := a, u_tracking_no := b, u_carrier := cr,
                      u_shipped_at := d, u_delivered_at := e, u_created_at := f\<rparr>)
     = is_valid inst rq"
  by (simp add: is_valid_def cong: sum.case_cong)

lemma serializer_update_result:
  "fst (serializer_update t vd inst w) = update_instance t vd inst
   \<and> shipments (snd (serializer_update t vd inst w))
       = db_update (update_instance t vd inst) (shipments w)"
  by (simp add: serializer_update_def Let_def)

lemma serializer_update_eq:
  assumes "serializer_update t vd inst w = (s, w1)"
  shows "s = update_instance t vd inst \<and> shipments w1 = db_update s (shipments w)"
  using serializer_update_result[of t vd inst w] assms by simp

lemma publish_status_event_tables:
  "shipments (publish_status_event c s old w) = shipments w
   \<and> history (publish_status_event c s old w) = history w"
  by (simp add: publish_status_event_def Let_def publish_event_tables)

lemma views_update_Inr:
  assumes "views_update c p rq w = (Inr s, w')"
  shows "\<exists>inst vd. get_object p w = Inr inst \<and> is_valid inst rq = Inr vd
           \<and> s = update_instance (now c) vd inst
           \<and> shipments w' = db_update s (shipments w)"
  using assms
  by (auto simp: views_update_def Let_def publish_status_event_tables
        split: sum.splits prod.splits if_splits dest: serializer_update_eq)

lemma views_update_Inl:
  assumes "views_update c p rq w = (Inl e, w')"
  shows "w' = w"
  using assms
  by (auto simp: views_update_def Let_def split: sum.splits prod.splits)

lemma get_object_Inr:
  assumes "get_object p w = Inr inst"
  shows "inst \<in> set (shipments w) \<and> pk inst = p"
proof -
  from assms obtain rest where "filter (\<lambda>s. pk s = p) (shipments w) = inst # rest"
    by (auto simp: get_object_def split: list.splits)
  then have "inst \<in> set (filter (\<lambda>s. pk s = p) (shipments w))" by simp
  then show ?thesis by simp
qed

lemma get_object_Inl:
  assumes "get_object p w = Inl e"
  shows "\<forall>r\<in>set (shipments w). pk r \<noteq> p"
  using assms by (auto simp: get_object_def filter_empty_conv split: list.splits)

text \<open>
  Claim C10, as the code has it. An update through the view set does not read
  the request's \<open>order_id\<close>, \<open>tracking_no\<close>, \<open>carrier\<close>, \<open>shipped_at\<close>,
  \<open>delivered_at\<close> or \<open>created_at\<close>; a rejected request changes nothing; an accepted
  one replaces the row of that primary key alone. The new row is the old one with
  \<open>status\<close>, \<open>notes\<close> and \<open>actual_weight\<close> as the request supplies them (the notes
  trimmed; a field not supplied keeps its value), \<open>updated_at\<close> set to the current
  time and the two automatic timestamps: \<open>shipped_at\<close> and \<open>delivered_at\<close> keep a
  value they have; while null, \<open>shipped_at\<close> becomes the current time when the
  resulting status is PICKED\_UP or IN\_TRANSIT, and \<open>delivered_at\<close> when it is
  DELIVERED. Every other column, \<open>shipping_address\<close> and \<open>estimated_delivery\<close>
  included, is as it was.
\<close>

theorem views_update_frame:
  "views_update c p
      (rq\<lparr>u_order_id := a, u_tracking_no := b, u_carrier := cr,
          u_shipped_at := d, u_delivered_at := e, u_created_at := f\<rparr>) w
     = views_update c p rq w
   \<and> (\<forall>e w'. views_update c p rq w = (Inl e, w') \<longrightarrow> w' = w)
   \<and> (\<forall>inst s w'. get_object p w = Inr inst \<and> views_update c p rq w = (Inr s, w') \<longrightarrow>
         shipments w' = map (\<lambda>r. if pk r = p then s else r) (shipments w)
         \<and> s = inst
              \<lparr>status := (case u_status rq of None \<Rightarrow> status inst | Some st \<Rightarrow> st),
               shipped_at :=
                 (if shipped_at inst = None \<and> status s \<in> {PICKED_UP, IN_TRANSIT}
                  then Some (now c) else shipped_at inst),
               delivered_at :=
                 (if delivered_at inst = None \<and> status s = DELIVERED
                  then Some (now c) else delivered_at inst),
               updated_at := now c,
               actual_weight :=
                 (case u_actual_weight rq of None \<Rightarrow> actual_weight inst | Some x \<Rightarrow> x),
               notes_text :=
                 (case u_notes rq of None \<Rightarrow> notes_text inst
                  | Some n \<Rightarrow> map_option strip n)\<rparr>
         \<and> pk s = p \<and> order_id s = order_id inst \<and> tracking_no s = tracking_no inst
         \<and> carrier s = carrier inst \<and> created_at s = created_at inst
         \<and> shipping_address s = shipping_address inst
         \<and> estimated_delivery s = estimated_delivery inst
         \<and> shipped_at s
             = (if shipped_at inst = None \<and> status s \<in> {PICKED_UP, IN_TRANSIT}
                then Some (now c) else shipped_at inst)
         \<and> delivered_at s
             = (if delivered_at inst = None \<and> status s = DELIVERED
                then Some (now c) else delivered_at inst))"
proof (intro conjI allI impI)
  show "views_update c p
      (rq\<lparr>u_order_id := a, u_tracking_no := b, u_carrier := cr,
          u_shipped_at := d, u_delivered_at := e, u_created_at := f\<rparr>) w
     = views_update c p rq w"
    by (simp add: views_update_def is_valid_extra_fields cong: sum.case_cong)
next
  fix e w' assume "views_update c p rq w = (Inl e, w')"
  then show "w' = w" by (rule views_update_Inl)
next
  fix inst s w'
  assume h: "get_object p w = Inr inst \<and> views_update c p rq w = (Inr s, w')"
  then obtain vd where vd: "is_valid inst rq = Inr vd"
    and s: "s = update_instance (now c) vd inst"
    and rows: "shipments w' = db_update s (shipments w)"
    using views_update_Inr[of c p rq w s w'] by auto
  have pkinst: "pk inst = p" using h get_object_Inr by blast
  have fr: "pk s = pk inst" "order_id s = order_id inst" "tracking_no s = tracking_no inst"
    "carrier s = carrier inst" "created_at s = created_at inst"
    "shipping_address s = shipping_address inst"
    "estimated_delivery s = estimated_delivery inst"
    "shipped_at s = (if shipped_at inst = None \<and> status s \<in> {PICKED_UP, IN_TRANSIT}
                then Some (now c) else shipped_at inst)"
    "delivered_at s = (if delivered_at inst = None \<and> status s = DELIVERED
                then Some (now c) else delivered_at inst)"
    unfolding s using update_instance_frame[of "now c" vd inst] by simp_all
  have wr: "status s = (case u_status rq of None \<Rightarrow> status inst | Some st \<Rightarrow> st)"
    "notes_text s = (case u_notes rq of None \<Rightarrow> notes_text inst
                     | Some n \<Rightarrow> map_option strip n)"
    "actual_weight s = (case u_actual_weight rq of None \<Rightarrow> actual_weight inst | Some x \<Rightarrow> x)"
    "updated_at s = now c"
    unfolding s using update_instance_written[of "now c" vd inst] is_valid_Inr[OF vd]
    by (simp_all split: option.splits)
  show "shipments w' = map (\<lambda>r. if pk r = p then s else r) (shipments w)"
    using rows fr(1) pkinst by (simp add: db_update_def)
  show "s = inst
              \<lparr>status := (case u_status rq of None \<Rightarrow> status inst | Some st \<Rightarrow> st),
               shipped_at :=
                 (if shipped_at inst = None \<and> status s \<in> {PICKED_UP, IN_TRANSIT}
                  then Some (now c) else shipped_at inst),
               delivered_at :=
                 (if delivered_at inst = None \<and> status s = DELIVERED
                  then Some (now c) else delivered_at inst),
               updated_at := now c,
               actual_weight :=
                 (case u_actual_weight rq of None \<Rightarrow> actual_weight inst | Some x \<Rightarrow> x),
               notes_text :=
                 (case u_notes rq of None \<Rightarrow> notes_text inst
                  | Some n \<Rightarrow> map_option strip n)\<rparr>"
    by (rule shipment.equality) (simp_all add: fr wr)
  show "pk s = p" using fr(1) pkinst by simp
  show "order_id s = order_id inst" by (rule fr(2))
  show "tracking_no s = tracking_no inst" by (rule fr(3))
  show "carrier s = carrier inst" by (rule fr(4))
  show "created_at s = created_at inst" by (rule fr(5))
  show "shipping_address s = shipping_address inst" by (rule fr(6))
  show "estimated_delivery s = estimated_delivery inst" by (rule fr(7))
  show "shipped_at s = (if shipped_at inst = None \<and> status s \<in> {PICKED_UP, IN_TRANSIT}
                then Some (now c) else shipped_at inst)" by (rule fr(8))
  show "delivered_at s = (if delivered_at inst = None \<and> status s = DELIVERED
                then Some (now c) else delivered_at inst)" by (rule fr(9))
qed

lemmas views_defs = views_update_def get_object_def is_valid_def optional_def char_field_def
  decimal_field_def strip_def is_space_def validate_status_def
  serializer_update_def update_instance_def set_attrs_def save_def db_update_def or_else_def
  publish_status_event_def event_data_def status_request_def Let_def

text \<open>An update of the PENDING shipment of order 42 to PICKED\_UP, also with the
  six fields supplied that the serializer does not declare.\<close>

theorem views_update_frame_witness:
  "get_object 1 (world_42 PENDING) = Inr (shipment_42 PENDING)
   \<and> views_update (ctx_up 20) 1 (status_request PICKED_UP) (world_42 PENDING)
       = (Inr ((shipment_42 PENDING)
                 \<lparr>status := PICKED_UP, shipped_at := Some 20, updated_at := 20\<rparr>),
          snd (views_update (ctx_up 20) 1 (status_request PICKED_UP) (world_42 PENDING)))
   \<and> shipments (snd (views_update (ctx_up 20) 1 (status_request PICKED_UP) (world_42 PENDING)))
       = [(shipment_42 PENDING)\<lparr>status := PICKED_UP, shipped_at := Some 20, updated_at := 20\<rparr>]
   \<and> views_update (ctx_up 20) 1
        ((status_request PICKED_UP)
           \<lparr>u_order_id := Some 7, u_tracking_no := Some ''TRK0001'', u_carrier := Some FedEx,
            u_shipped_at := Some 99, u_delivered_at := Some 98, u_created_at := Some 97\<rparr>)
        (world_42 PENDING)
      = views_update (ctx_up 20) 1 (status_request PICKED_UP) (world_42 PENDING)"
  using views_update_frame
          [where c = "ctx_up 20" and p = 1 and rq = "status_request PICKED_UP"
             and a = "Some 7" and b = "Some ''TRK0001''" and cr = "Some FedEx"
             and d = "Some 99" and e = "Some 98" and f = "Some 97"
             and w = "world_42 PENDING"]
  by (simp add: views_defs example_defs publisher_defs)

text \<open>
  An update of a PENDING shipment to PICKED\_UP changes \<open>shipped_at\<close> from null to
  the time of the update.
\<close>

theorem views_update_sets_shipped_at_counterexample:
  "map shipped_at (shipments (world_42 PENDING)) = [None]
   \<and> map shipped_at
        (shipments (snd (views_update (ctx_up 20) 1 (status_request PICKED_UP) (world_42 PENDING))))
      = [Some 20]"
  by (simp add: views_defs example_defs publisher_defs)

text \<open>The fields of the serializer validate what they are given: notes are stored
  trimmed, and a weight with more than eight digits before the decimal point is
  refused and nothing is written.\<close>

lemma views_update_field_validation:
  "map notes_text
     (shipments (snd (views_update (ctx_up 20) 1 (notes_request ''  fragile '')
                        (world_42 PENDING))))
     = [Some ''fragile'']
   \<and> views_update (ctx_up 20) 1
        ((status_request PICKED_UP)\<lparr>u_actual_weight := Some (Some 10000000000)\<rparr>)
        (world_42 PENDING)
     = (Inl (ValidationError
               ''Ensure that there are no more than 8 digits before the decimal point.''),
        world_42 PENDING)"
  by (simp add: views_defs notes_request_def example_defs publisher_defs)

section \<open>Timestamps over the life of a shipment\<close>

lemma save_good: "good (save t s)"
  by (auto simp: good_def save_def Let_def)

lemma apply_op_cases:
  "apply_op t op s = s \<or> (\<exists>s1. apply_op t op s = save t s1
      \<and> shipped_at s1 = shipped_at s \<and> delivered_at s1 = delivered_at s)"
  by (cases op)
     (auto simp: apply_op_def update_instance_def cancel_instance_def set_attrs_keeps
        split: sum.splits)

lemma apply_op_good: "good s \<Longrightarrow> good (apply_op t op s)"
  using apply_op_cases[of t op s] by (auto simp: save_good)

lemma apply_op_shipped_at:
  assumes "good s"
  shows "(shipped_at (apply_op t op s) \<noteq> None)
           = (shipped_at s \<noteq> None \<or> status (apply_op t op s) \<in> {PICKED_UP, IN_TRANSIT})"
  using apply_op_cases[of t op s] assms
  by (auto simp: good_def save_timestamps save_keeps split: if_splits)

lemma apply_op_delivered_at:
  assumes "good s"
  shows "(delivered_at (apply_op t op s) \<noteq> None)
           = (delivered_at s \<noteq> None \<or> status (apply_op t op s) = DELIVERED)"
  using apply_op_cases[of t op s] assms
  by (auto simp: good_def save_timestamps save_keeps split: if_splits)

lemma apply_op_keeps_timestamps:
  "(shipped_at s \<noteq> None \<longrightarrow> shipped_at (apply_op t op s) = shipped_at s)
   \<and> (delivered_at s \<noteq> None \<longrightarrow> delivered_at (apply_op t op s) = delivered_at s)"
  using apply_op_cases[of t op s] by (auto simp: save_timestamps)

lemma lifecycle_nonempty: "lifecycle s ops \<noteq> []"
  by (cases ops) auto

lemma lifecycle_head: "s \<in> set (lifecycle s ops)"
  by (cases ops) auto

lemma last_lifecycle_Cons:
  "last (lifecycle s ((t, op) # ops)) = last (lifecycle (apply_op t op s) ops)"
  by (simp add: lifecycle_nonempty)

lemma last_lifecycle_append:
  "last (lifecycle s (ops @ later)) = last (lifecycle (last (lifecycle s ops)) later)"
proof (induction ops arbitrary: s)
  case Nil then show ?case by simp
next
  case (Cons a ops)
  obtain t op where a: "a = (t, op)" by (cases a)
  show ?case unfolding a using Cons.IH[of "apply_op t op s"]
    by (simp add: lifecycle_nonempty)
qed

lemma lifecycle_shipped_at:
  "good s \<Longrightarrow>
     (shipped_at (last (lifecycle s ops)) \<noteq> None)
       = (shipped_at s \<noteq> None \<or> (\<exists>x\<in>set (lifecycle s ops). status x \<in> {PICKED_UP, IN_TRANSIT}))"
proof (induction ops arbitrary: s)
  case Nil
  then show ?case by (auto simp: good_def)
next
  case (Cons a ops)
  obtain t op where a: "a = (t, op)" by (cases a)
  let ?s' = "apply_op t op s"
  have g': "good ?s'" using Cons.prems by (rule apply_op_good)
  have ih: "(shipped_at (last (lifecycle ?s' ops)) \<noteq> None)
       = (shipped_at ?s' \<noteq> None \<or> (\<exists>x\<in>set (lifecycle ?s' ops). status x \<in> {PICKED_UP, IN_TRANSIT}))"
    using Cons.IH[OF g'] .
  have st: "(shipped_at ?s' \<noteq> None)
           = (shipped_at s \<noteq> None \<or> status ?s' \<in> {PICKED_UP, IN_TRANSIT})"
    using apply_op_shipped_at[OF Cons.prems] .
  have hd: "?s' \<in> set (lifecycle ?s' ops)" by (rule lifecycle_head)
  have gs: "status s \<in> {PICKED_UP, IN_TRANSIT} \<longrightarrow> shipped_at s \<noteq> None"
    using Cons.prems by (simp add: good_def)
  show ?case
    unfolding a last_lifecycle_Cons ih st using hd gs by auto
qed

lemma lifecycle_delivered_at:
  "good s \<Longrightarrow>
     (delivered_at (last (lifecycle s ops)) \<noteq> None)
       = (delivered_at s \<noteq> None \<or> (\<exists>x\<in>set (lifecycle s ops). status x = DELIVERED))"
proof (induction ops arbitrary: s)
  case Nil
  then show ?case by (auto simp: good_def)
next
  case (Cons a ops)
  obtain t op where a: "a = (t, op)" by (cases a)
  let ?s' = "apply_op t op s"
  have g': "good ?s'" using Cons.prems by (rule apply_op_good)
  have ih: "(delivered_at (last (lifecycle ?s' ops)) \<noteq> None)
       = (delivered_at ?s' \<noteq> None \<or> (\<exists>x\<in>set (lifecycle ?s' ops). status x = DELIVERED))"
    using Cons.IH[OF g'] .
  have st: "(delivered_at ?s' \<noteq> None)
           = (delivered_at s \<noteq> None \<or> status ?s' = DELIVERED)"
    using apply_op_delivered_at[OF Cons.prems] .
  have hd: "?s' \<in> set (lifecycle ?s' ops)" by (rule lifecycle_head)
  have gs: "status s = DELIVERED \<longrightarrow> delivered_at s \<noteq> None"
    using Cons.prems by (simp add: good_def)
  show ?case
    unfolding a last_lifecycle_Cons ih st using hd gs by auto
qed

lemma lifecycle_keeps_timestamps:
  "(shipped_at s \<noteq> None \<longrightarrow> shipped_at (last (lifecycle s ops)) = shipped_at s)
   \<and> (delivered_at s \<noteq> None \<longrightarrow> delivered_at (last (lifecycle s ops)) = delivered_at s)"
proof (induction ops arbitrary: s)
  case Nil then show ?case by simp
next
  case (Cons a ops)
  obtain t op where a: "a = (t, op)" by (cases a)
  show ?case
    unfolding a last_lifecycle_Cons
    using Cons.IH[of "apply_op t op s"] apply_op_keeps_timestamps[of s t op] by auto
qed

text \<open>
  Claim C5. For a shipment created as both creation paths create it (PENDING,
  no timestamps) and then taken through any sequence of update requests and
  order cancellations: \<open>shipped_at\<close> is set exactly when some state it went
  through had status PICKED\_UP or IN\_TRANSIT, \<open>delivered_at\<close> exactly when some
  state had status DELIVERED, and once either is set no later operation changes
  it.
\<close>

theorem timestamps_follow_status:
  assumes "status s0 = PENDING" "shipped_at s0 = None" "delivered_at s0 = None"
  shows "(shipped_at (last (lifecycle s0 ops)) \<noteq> None)
           = (\<exists>x\<in>set (lifecycle s0 ops). status x \<in> {PICKED_UP, IN_TRANSIT})
   \<and> (delivered_at (last (lifecycle s0 ops)) \<noteq> None)
           = (\<exists>x\<in>set (lifecycle s0 ops). status x = DELIVERED)
   \<and> (shipped_at (last (lifecycle s0 ops)) \<noteq> None
        \<longrightarrow> shipped_at (last (lifecycle s0 (ops @ later))) = shipped_at (last (lifecycle s0 ops)))
   \<and> (delivered_at (last (lifecycle s0 ops)) \<noteq> None
        \<longrightarrow> delivered_at (last (lifecycle s0 (ops @ later)))
            = delivered_at (last (lifecycle s0 ops)))"
proof -
  have g: "good s0" using assms by (simp add: good_def)
  have a: "(shipped_at (last (lifecycle s0 ops)) \<noteq> None)
           = (\<exists>x\<in>set (lifecycle s0 ops). status x \<in> {PICKED_UP, IN_TRANSIT})"
    using lifecycle_shipped_at[OF g, of ops] assms(2) by simp
  have b: "(delivered_at (last (lifecycle s0 ops)) \<noteq> None)
           = (\<exists>x\<in>set (lifecycle s0 ops). status x = DELIVERED)"
    using lifecycle_delivered_at[OF g, of ops] assms(3) by simp
  have c: "shipped_at (last (lifecycle s0 ops)) \<noteq> None
        \<longrightarrow> shipped_at (last (lifecycle s0 (ops @ later))) = shipped_at (last (lifecycle s0 ops))"
    unfolding last_lifecycle_append[of s0 ops later]
    using lifecycle_keeps_timestamps[of "last (lifecycle s0 ops)" later] by simp
  have d: "delivered_at (last (lifecycle s0 ops)) \<noteq> None
        \<longrightarrow> delivered_at (last (lifecycle s0 (ops @ later)))
            = delivered_at (last (lifecycle s0 ops))"
    unfolding last_lifecycle_append[of s0 ops later]
    using lifecycle_keeps_timestamps[of "last (lifecycle s0 ops)" later] by simp
  from a b c d show ?thesis by blast
qed


lemmas lifecycle_defs = apply_op_def is_valid_def optional_def char_field_def
  decimal_field_def strip_def is_space_def validate_status_def update_instance_def
  cancel_instance_def set_attrs_def save_def status_request_def notes_request_def
  delivery_ops_def Let_def

theorem timestamps_follow_status_witness:
  "status (shipment_42 PENDING) = PENDING \<and> shipped_at (shipment_42 PENDING) = None
   \<and> delivered_at (shipment_42 PENDING) = None
   \<and> map status (lifecycle (shipment_42 PENDING) delivery_ops)
       = [PENDING, PICKED_UP, IN_TRANSIT, OUT_FOR_DELIVERY, DELIVERED]
   \<and> shipped_at (last (lifecycle (shipment_42 PENDING) delivery_ops)) = Some 20
   \<and> delivered_at (last (lifecycle (shipment_42 PENDING) delivery_ops)) = Some 23
   \<and> delivered_at
        (last (lifecycle (shipment_42 PENDING)
                 (delivery_ops @ [(30, ApiUpdate (notes_request ''left at the door''))])))
       = Some 23
   \<and> notes_text
        (last (lifecycle (shipment_42 PENDING)
                 (delivery_ops @ [(30, ApiUpdate (notes_request ''left at the door''))])))
       = Some ''left at the door''"
  using timestamps_follow_status
          [where ?s0.0 = "shipment_42 PENDING" and ops = delivery_ops
             and later = "[(30, ApiUpdate (notes_request ''left at the door''))]"]
  by (simp add: lifecycle_defs example_defs)

text \<open>
  An update through the view set acts on each row as \<open>apply_op\<close> does, both
  creation paths store a shipment that is PENDING and has no timestamps, and the
  consumer's handlers leave every row as it is.
\<close>

lemma views_update_rows:
  assumes d: "distinct (map pk (shipments w))"
  shows "shipments (snd (views_update c p rq w))
         = map (\<lambda>r. if pk r = p then apply_op (now c) (ApiUpdate rq) r else r) (shipments w)"
proof (cases "get_object p w")
  case (Inl e)
  from get_object_Inl[OF Inl] have "map (\<lambda>r. if pk r = p then apply_op (now c) (ApiUpdate rq) r else r)
      (shipments w) = shipments w"
    by (simp add: map_idI)
  with Inl show ?thesis by (simp add: views_update_def)
next
  case (Inr inst)
  have inj: "inj_on pk (set (shipments w))" using d by (simp add: distinct_map)
  from get_object_Inr[OF Inr] have inst: "inst \<in> set (shipments w)" "pk inst = p" by simp_all
  have only: "\<And>r. r \<in> set (shipments w) \<Longrightarrow> pk r = p \<Longrightarrow> r = inst"
    using inj inst by (auto dest: inj_onD)
  show ?thesis
  proof (cases "is_valid inst rq")
    case (Inl e)
    have "map (\<lambda>r. if pk r = p then apply_op (now c) (ApiUpdate rq) r else r) (shipments w)
          = shipments w"
      by (rule map_idI) (auto simp: apply_op_def Inl dest: only)
    with Inl \<open>get_object p w = Inr inst\<close> show ?thesis by (simp add: views_update_def)
  next
    case (Inr vd)
    have "\<exists>s w'. views_update c p rq w = (Inr s, w')"
      using Inr \<open>get_object p w = Inr inst\<close>
      by (simp add: views_update_def Let_def split: prod.splits)
    then obtain s w' where v: "views_update c p rq w = (Inr s, w')" by blast
    from views_update_Inr[OF v] Inr \<open>get_object p w = Inr inst\<close>
    have s: "s = update_instance (now c) vd inst"
      and rows: "shipments w' = db_update s (shipments w)" by auto
    have pks: "pk s = p" unfolding s using update_instance_frame[of "now c" vd inst] inst by simp
    have ap: "apply_op (now c) (ApiUpdate rq) inst = s"
      by (simp add: apply_op_def Inr s)
    have "db_update s (shipments w) = map (\<lambda>r. if pk r = p then s else r) (shipments w)"
      by (simp add: db_update_def pks)
    also have "\<dots> = map (\<lambda>r. if pk r = p then apply_op (now c) (ApiUpdate rq) r else r)
                       (shipments w)"
    proof (rule map_cong[OF refl])
      fix r assume r: "r \<in> set (shipments w)"
      show "(if pk r = p then s else r)
            = (if pk r = p then apply_op (now c) (ApiUpdate rq) r else r)"
      proof (cases "pk r = p")
        case True
        with r have "r = inst" by (rule only)
        with True ap show ?thesis by simp
      next
        case False
        then show ?thesis by simp
      qed
    qed
    finally show ?thesis using v rows by simp
  qed
qed

lemma created_is_fresh:
  assumes "objects_create t oid vals w = Inr (s, w')"
    and "status vals = PENDING" "shipped_at vals = None" "delivered_at vals = None"
  shows "status s = PENDING \<and> shipped_at s = None \<and> delivered_at s = None"
  using assms
  by (auto simp: objects_create_def save_def Let_def split: option.splits if_splits)


lemma handle_order_cancelled_rows:
  "shipments (snd (handle_order_cancelled c b w)) = shipments w"
  by (simp add: handle_order_cancelled_import)

lemma handle_order_confirmed_rows:
  assumes "handle_order_confirmed c rng b w = Some (r, w')"
  shows "shipments w' = shipments w"
  using assms by (simp add: handle_order_confirmed_import)

section \<open>History rows and events of a status transition\<close>

lemma serializer_update_history:
  "history (snd (serializer_update t vd inst w))
     = (if status inst \<noteq> status (update_instance t vd inst)
        then history w @
             [\<lparr>h_pk = next_history_pk w, h_shipment = pk inst,
               h_status = status (update_instance t vd inst),
               h_location = or_else (v_location vd) [],
               h_description = or_else (v_description vd)
                  (''Status updated to '' @ status_str (status (update_instance t vd inst))),
               h_timestamp = t\<rparr>]
        else history w)
   \<and> publish_calls (snd (serializer_update t vd inst w)) = publish_calls w
   \<and> outbox (snd (serializer_update t vd inst w)) = outbox w"
  using update_instance_frame[of t vd inst]
  by (simp add: serializer_update_def Let_def)

lemma publish_status_event_calls:
  assumes "status s \<noteq> PENDING"
  shows "map fst (publish_calls (publish_status_event c s old w))
         = map fst (publish_calls w) @ [spec_status_event (status s), ''shipment.status_updated'']"
  using assms
  by (cases "status s") (simp_all add: publish_status_event_def Let_def publish_event_tables)

lemma publish_event_healthy:
  assumes "rabbitmq_enabled c" "\<forall>k. connect_ok (broker c k) \<and> publish_ok (broker c k)"
  shows "outbox (snd (publish_event c et d w)) = outbox w @ [(et, d)]"
  using assms by (simp add: publisher_defs Let_def)

lemma publish_status_event_outbox:
  assumes "rabbitmq_enabled c" "\<forall>k. connect_ok (broker c k) \<and> publish_ok (broker c k)"
    and "status s \<noteq> PENDING"
  shows "map fst (outbox (publish_status_event c s old w))
         = map fst (outbox w) @ [spec_status_event (status s), ''shipment.status_updated'']"
  using assms(3)
  by (cases "status s")
     (simp_all add: publish_status_event_def Let_def publish_event_healthy[OF assms(1,2)])

lemma is_valid_status:
  assumes "is_valid inst rq = Inr vd"
  shows "status (update_instance t vd inst) = status inst
         \<or> status (update_instance t vd inst) \<in> set (valid_transitions (status inst))"
  using is_valid_Inr[OF assms] update_instance_written[of t vd inst]
  by (auto split: option.splits)

lemma valid_transitions_not_PENDING: "PENDING \<notin> set (valid_transitions st)"
  by (cases st) simp_all

lemma views_update_history:
  assumes g: "get_object p w = Inr inst"
  shows "history (snd (views_update c p rq w))
         = history w @
           (case fst (views_update c p rq w) of
              Inl e \<Rightarrow> []
            | Inr s \<Rightarrow>
                if status s \<noteq> status inst
                then [\<lparr>h_pk = next_history_pk w, h_shipment = p, h_status = status s,
                       h_location = or_else (map_option strip (u_location rq)) [],
                       h_description = or_else (map_option strip (u_description rq))
                          (''Status updated to '' @ status_str (status s)),
                       h_timestamp = now c\<rparr>]
                else [])"
proof (cases "is_valid inst rq")
  case (Inl e)
  with g show ?thesis by (simp add: views_update_def)
next
  case (Inr vd)
  have loc: "v_location vd = map_option strip (u_location rq)"
    "v_description vd = map_option strip (u_description rq)"
    using is_valid_Inr[OF Inr] by simp_all
  have pk: "pk inst = p" using get_object_Inr[OF g] by simp
  obtain s w1 where su: "serializer_update (now c) vd inst w = (s, w1)"
    by (cases "serializer_update (now c) vd inst w")
  from serializer_update_eq[OF su] have s: "update_instance (now c) vd inst = s" by simp
  have v: "views_update c p rq w
           = (Inr s, if status inst \<noteq> status s
                     then publish_status_event c s (status inst) w1 else w1)"
    using g Inr su by (simp add: views_update_def Let_def)
  have hw1: "history w1
     = (if status inst \<noteq> status s
        then history w @
             [\<lparr>h_pk = next_history_pk w, h_shipment = p, h_status = status s,
               h_location = or_else (map_option strip (u_location rq)) [],
               h_description = or_else (map_option strip (u_description rq))
                  (''Status updated to '' @ status_str (status s)),
               h_timestamp = now c\<rparr>]
        else history w)"
    using serializer_update_history[of "now c" vd inst w]
    unfolding su s loc pk by simp
  show ?thesis
    unfolding v by (auto simp: publish_status_event_tables hw1)
qed

lemma views_update_status:
  assumes g: "get_object p w = Inr inst" and v: "views_update c p rq w = (Inr s, w')"
  shows "status s = (case u_status rq of None \<Rightarrow> status inst | Some st \<Rightarrow> st)
         \<and> (status s = status inst \<or> status s \<in> set (valid_transitions (status inst)))
         \<and> pk s = p
         \<and> shipments w' = map (\<lambda>r. if pk r = p then s else r) (shipments w)"
proof -
  from views_update_Inr[OF v] g obtain vd where vd: "is_valid inst rq = Inr vd"
    and s: "s = update_instance (now c) vd inst"
    and rows: "shipments w' = db_update s (shipments w)" by auto
  have pk: "pk s = p"
    unfolding s using update_instance_frame[of "now c" vd inst] get_object_Inr[OF g] by simp
  have st: "status s = (case u_status rq of None \<Rightarrow> status inst | Some st \<Rightarrow> st)"
    unfolding s using update_instance_written[of "now c" vd inst] is_valid_Inr[OF vd]
    by (simp split: option.splits)
  from st pk rows is_valid_status[OF vd, of "now c"] show ?thesis
    unfolding s by (simp add: db_update_def)
qed

lemma get_object_after_update:
  assumes g: "get_object p w = Inr inst" and v: "views_update c p rq w = (Inr s, w')"
  shows "get_object p w' = Inr s"
proof -
  from views_update_status[OF g v] have pk: "pk s = p"
    and rows: "shipments w' = map (\<lambda>r. if pk r = p then s else r) (shipments w)" by simp_all
  from g obtain rest where f: "filter (\<lambda>r. pk r = p) (shipments w) = inst # rest"
    by (auto simp: get_object_def split: list.splits)
  have "filter (\<lambda>r. pk r = p) (shipments w')
        = map (\<lambda>r. if pk r = p then s else r)
            (filter (\<lambda>r. pk (if pk r = p then s else r) = p) (shipments w))"
    unfolding rows by (simp add: filter_map comp_def)
  also have "filter (\<lambda>r. pk (if pk r = p then s else r) = p) (shipments w)
             = filter (\<lambda>r. pk r = p) (shipments w)"
    by (rule filter_cong[OF refl]) (simp add: pk)
  finally have "filter (\<lambda>r. pk r = p) (shipments w')
                = s # map (\<lambda>r. if pk r = p then s else r) rest"
    using f get_object_Inr[OF g] by simp
  then show ?thesis by (simp add: get_object_def)
qed

lemma views_update_again:
  assumes g: "get_object p w = Inr inst" and v: "views_update c p rq w = (Inr s, w')"
  shows "history (snd (views_update c2 p rq w')) = history w'"
proof -
  have g': "get_object p w' = Inr s" by (rule get_object_after_update[OF g v])
  have st: "status s = (case u_status rq of None \<Rightarrow> status inst | Some st \<Rightarrow> st)"
    using views_update_status[OF g v] by simp
  show ?thesis
  proof (cases "views_update c2 p rq w'")
    case (Pair r w2)
    show ?thesis
    proof (cases r)
      case (Inl e)
      with Pair views_update_Inl[of c2 p rq w' e w2] show ?thesis by simp
    next
      case (Inr s2)
      with Pair have v2: "views_update c2 p rq w' = (Inr s2, w2)" by simp
      have "status s2 = (case u_status rq of None \<Rightarrow> status s | Some st \<Rightarrow> st)"
        using views_update_status[OF g' v2] by simp
      with st have "status s2 = status s" by (simp split: option.splits)
      with views_update_history[OF g', of c2 rq] v2 show ?thesis by simp
    qed
  qed
qed

lemma views_update_events:
  assumes g: "get_object p w = Inr inst"
  shows "map fst (publish_calls (snd (views_update c p rq w)))
         = map fst (publish_calls w)
           @ (case fst (views_update c p rq w) of
                Inl e \<Rightarrow> []
              | Inr s \<Rightarrow>
                  if status s \<noteq> status inst
                  then [spec_status_event (status s), ''shipment.status_updated''] else [])"
proof (cases "is_valid inst rq")
  case (Inl e)
  with g show ?thesis by (simp add: views_update_def)
next
  case (Inr vd)
  obtain s w1 where su: "serializer_update (now c) vd inst w = (s, w1)"
    by (cases "serializer_update (now c) vd inst w")
  then have s: "s = update_instance (now c) vd inst" by (simp add: serializer_update_eq)
  have c1: "publish_calls w1 = publish_calls w"
    using serializer_update_history[of "now c" vd inst w] su by simp
  have np: "status s \<noteq> status inst \<Longrightarrow> status s \<noteq> PENDING"
    using is_valid_status[OF Inr, of "now c"] valid_transitions_not_PENDING[of "status inst"]
    unfolding s by auto
  show ?thesis
    using g Inr su np
    by (auto simp: views_update_def Let_def c1 publish_status_event_calls)
qed

lemma views_update_outbox:
  assumes g: "get_object p w = Inr inst"
    and en: "rabbitmq_enabled c" and br: "\<forall>k. connect_ok (broker c k) \<and> publish_ok (broker c k)"
  shows "map fst (outbox (snd (views_update c p rq w)))
         = map fst (outbox w)
           @ (case fst (views_update c p rq w) of
                Inl e \<Rightarrow> []
              | Inr s \<Rightarrow>
                  if status s \<noteq> status inst
                  then [spec_status_event (status s), ''shipment.status_updated''] else [])"
proof (cases "is_valid inst rq")
  case (Inl e)
  with g show ?thesis by (simp add: views_update_def)
next
  case (Inr vd)
  obtain s w1 where su: "serializer_update (now c) vd inst w = (s, w1)"
    by (cases "serializer_update (now c) vd inst w")
  then have s: "s = update_instance (now c) vd inst" by (simp add: serializer_update_eq)
  have c1: "outbox w1 = outbox w"
    using serializer_update_history[of "now c" vd inst w] su by simp
  have np: "status s \<noteq> status inst \<Longrightarrow> status s \<noteq> PENDING"
    using is_valid_status[OF Inr, of "now c"] valid_transitions_not_PENDING[of "status inst"]
    unfolding s by auto
  show ?thesis
    using g Inr su np
    by (auto simp: views_update_def Let_def c1 publish_status_event_outbox[OF en br])
qed

lemma views_update_not_found:
  assumes "get_object p w = Inl e"
  shows "views_update c p rq w = (Inl e, w)"
  using assms by (simp add: views_update_def)

lemma views_create_keeps:
  assumes "views_create c rng cr w = Some (r, w')"
  shows "history w' = history w \<and> take (length (shipments w)) (shipments w') = shipments w"
  using assms
  by (auto simp: views_create_def serializer_create_def objects_create_def Let_def
        publish_event_tables split: option.splits sum.splits if_splits)

text \<open>
  Claim C4. The operations that write to the tables are the update of the view
  set (\<open>update\<close> and \<open>partial_update\<close>), its creation and the two handlers of the
  consumer. An update of an existing shipment appends to the history exactly one
  row, for that shipment and with its new status, when the request is accepted
  and the stored status changes, and no row when the request is rejected or
  leaves the status as it is; the rows already there stay as they are and where
  they are. Hence the same request made a second time appends nothing. An update
  of a shipment that does not exist, the creation of a shipment and both
  handlers change no status and leave the history as it is. (Deleting a shipment,
  and the administrative interface, are outside the model, as they are outside
  the specification.)
\<close>

theorem history_row_per_transition:
  "(\<forall>inst. get_object p w = Inr inst \<longrightarrow>
       history (snd (views_update c p rq w))
         = history w @
           (case fst (views_update c p rq w) of
              Inl e \<Rightarrow> []
            | Inr s \<Rightarrow>
                if status s \<noteq> status inst
                then [\<lparr>h_pk = next_history_pk w, h_shipment = p, h_status = status s,
                       h_location = or_else (map_option strip (u_location rq)) [],
                       h_description = or_else (map_option strip (u_description rq))
                          (''Status updated to '' @ status_str (status s)),
                       h_timestamp = now c\<rparr>]
                else [])
       \<and> (\<forall>s w'. views_update c p rq w = (Inr s, w') \<longrightarrow>
             shipments w' = map (\<lambda>r. if pk r = p then s else r) (shipments w)
             \<and> (status s = status inst \<or> status s \<in> set (valid_transitions (status inst)))
             \<and> history (snd (views_update c2 p rq w')) = history w'))
   \<and> (\<forall>e. get_object p w = Inl e \<longrightarrow> views_update c p rq w = (Inl e, w))
   \<and> (\<forall>e w'. views_update c p rq w = (Inl e, w') \<longrightarrow> w' = w)
   \<and> (\<forall>r w'. views_create c rng cr w = Some (r, w') \<longrightarrow>
         history w' = history w \<and> take (length (shipments w)) (shipments w') = shipments w)
   \<and> handle_order_confirmed c rng b w = Some (Nack True, w)
   \<and> handle_order_cancelled c b w = (Nack True, w)"
proof (intro conjI allI impI)
  fix inst assume g: "get_object p w = Inr inst"
  show "history (snd (views_update c p rq w))
         = history w @
           (case fst (views_update c p rq w) of
              Inl e \<Rightarrow> []
            | Inr s \<Rightarrow>
                if status s \<noteq> status inst
                then [\<lparr>h_pk = next_history_pk w, h_shipment = p, h_status = status s,
                       h_location = or_else (map_option strip (u_location rq)) [],
                       h_description = or_else (map_option strip (u_description rq))
                          (''Status updated to '' @ status_str (status s)),
                       h_timestamp = now c\<rparr>]
                else [])"
    by (rule views_update_history[OF g])
  {
    fix s w' assume v: "views_update c p rq w = (Inr s, w')"
    show "shipments w' = map (\<lambda>r. if pk r = p then s else r) (shipments w)"
      using views_update_status[OF g v] by blast
    show "status s = status inst \<or> status s \<in> set (valid_transitions (status inst))"
      using views_update_status[OF g v] by blast
    show "history (snd (views_update c2 p rq w')) = history w'"
      by (rule views_update_again[OF g v])
  }
next
  fix e assume "get_object p w = Inl e"
  then show "views_update c p rq w = (Inl e, w)" by (rule views_update_not_found)
next
  fix e w' assume "views_update c p rq w = (Inl e, w')"
  then show "w' = w" by (rule views_update_Inl)
next
  fix r w' assume v: "views_create c rng cr w = Some (r, w')"
  show "history w' = history w" using views_create_keeps[OF v] by simp
  show "take (length (shipments w)) (shipments w') = shipments w"
    using views_create_keeps[OF v] by simp
next
  show "handle_order_confirmed c rng b w = Some (Nack True, w)"
    by (rule handle_order_confirmed_import)
next
  show "handle_order_cancelled c b w = (Nack True, w)"
    by (rule handle_order_cancelled_import)
qed

text \<open>The PENDING shipment of order 42 is taken to PICKED\_UP: one row; the same
  request once more: no further row; a request for DELIVERED instead: rejected,
  no row.\<close>

theorem history_row_per_transition_witness:
  "get_object 1 (world_42 PENDING) = Inr (shipment_42 PENDING)
   \<and> history (snd (views_update (ctx_up 20) 1 (status_request PICKED_UP) (world_42 PENDING)))
       = [\<lparr>h_pk = 1, h_shipment = 1, h_status = PICKED_UP, h_location = [],
           h_description = ''Status updated to PICKED_UP'', h_timestamp = 20\<rparr>]
   \<and> history (snd (views_update (ctx_up 21) 1 (status_request PICKED_UP)
        (snd (views_update (ctx_up 20) 1 (status_request PICKED_UP) (world_42 PENDING)))))
       = [\<lparr>h_pk = 1, h_shipment = 1, h_status = PICKED_UP, h_location = [],
           h_description = ''Status updated to PICKED_UP'', h_timestamp = 20\<rparr>]
   \<and> views_update (ctx_up 20) 1 (status_request DELIVERED) (world_42 PENDING)
       = (Inl (ValidationError ''Invalid status transition from PENDING to DELIVERED''),
          world_42 PENDING)"
  using history_row_per_transition
          [where p = 1 and w = "world_42 PENDING" and c = "ctx_up 20" and ?c2.0 = "ctx_up 21"
             and rq = "status_request PICKED_UP"]
  by (simp add: views_defs example_defs publisher_defs)

text \<open>
  Claim C8. An update of an existing shipment that is accepted and changes the
  stored status calls \<open>publish_event\<close> twice: with the routing key of the new
  status, then with \<open>shipment.status_updated\<close>; the new status is never PENDING,
  so the first key is one of the six status-specific ones. With publishing on
  and a broker that accepts every publication, both events reach the broker in
  that order. A rejected request, or one that leaves the status as it is,
  publishes nothing. The handlers of the consumer change no status and publish
  nothing, for \<open>order.cancelled\<close> too: no status changes without both events.
\<close>

theorem status_events_per_transition:
  "(\<forall>inst. get_object p w = Inr inst \<longrightarrow>
       map fst (publish_calls (snd (views_update c p rq w)))
         = map fst (publish_calls w)
           @ (case fst (views_update c p rq w) of
                Inl e \<Rightarrow> []
              | Inr s \<Rightarrow>
                  if status s \<noteq> status inst
                  then [spec_status_event (status s), ''shipment.status_updated''] else [])
       \<and> (rabbitmq_enabled c \<and> (\<forall>k. connect_ok (broker c k) \<and> publish_ok (broker c k)) \<longrightarrow>
            map fst (outbox (snd (views_update c p rq w)))
              = map fst (outbox w)
                @ (case fst (views_update c p rq w) of
                     Inl e \<Rightarrow> []
                   | Inr s \<Rightarrow>
                       if status s \<noteq> status inst
                       then [spec_status_event (status s), ''shipment.status_updated'']
                       else []))
       \<and> (\<forall>s w'. views_update c p rq w = (Inr s, w') \<and> status s \<noteq> status inst \<longrightarrow>
             status s \<in> {PICKED_UP, IN_TRANSIT, OUT_FOR_DELIVERY, DELIVERED, CANCELLED, FAILED}
             \<and> shipments w' = map (\<lambda>r. if pk r = p then s else r) (shipments w)))
   \<and> (\<forall>e. get_object p w = Inl e \<longrightarrow> views_update c p rq w = (Inl e, w))
   \<and> handle_order_confirmed c rng b w = Some (Nack True, w)
   \<and> handle_order_cancelled c b w = (Nack True, w)"
proof (intro conjI allI impI)
  fix inst assume g: "get_object p w = Inr inst"
  show "map fst (publish_calls (snd (views_update c p rq w)))
         = map fst (publish_calls w)
           @ (case fst (views_update c p rq w) of
                Inl e \<Rightarrow> []
              | Inr s \<Rightarrow>
                  if status s \<noteq> status inst
                  then [spec_status_event (status s), ''shipment.status_updated''] else [])"
    by (rule views_update_events[OF g])
  {
    assume h: "rabbitmq_enabled c \<and> (\<forall>k. connect_ok (broker c k) \<and> publish_ok (broker c k))"
    show "map fst (outbox (snd (views_update c p rq w)))
              = map fst (outbox w)
                @ (case fst (views_update c p rq w) of
                     Inl e \<Rightarrow> []
                   | Inr s \<Rightarrow>
                       if status s \<noteq> status inst
                       then [spec_status_event (status s), ''shipment.status_updated'']
                       else [])"
      using views_update_outbox[OF g] h by blast
  }
  {
    fix s w' assume v: "views_update c p rq w = (Inr s, w') \<and> status s \<noteq> status inst"
    from views_update_status[OF g, of c rq s w'] v
    have a: "status s \<in> set (valid_transitions (status inst))"
      and rows: "shipments w' = map (\<lambda>r. if pk r = p then s else r) (shipments w)" by auto
    from a valid_transitions_not_PENDING[of "status inst"] have "status s \<noteq> PENDING" by auto
    then show "status s \<in> {PICKED_UP, IN_TRANSIT, OUT_FOR_DELIVERY, DELIVERED, CANCELLED, FAILED}"
      by (cases "status s") simp_all
    show "shipments w' = map (\<lambda>r. if pk r = p then s else r) (shipments w)" by (rule rows)
  }
next
  fix e assume "get_object p w = Inl e"
  then show "views_update c p rq w = (Inl e, w)" by (rule views_update_not_found)
next
  show "handle_order_confirmed c rng b w = Some (Nack True, w)"
    by (rule handle_order_confirmed_import)
next
  show "handle_order_cancelled c b w = (Nack True, w)"
    by (rule handle_order_cancelled_import)
qed

text \<open>The PENDING shipment of order 42 is taken to PICKED\_UP under a healthy
  broker: the broker receives \<open>shipment.picked_up\<close>, then
  \<open>shipment.status_updated\<close>; the same request once more publishes nothing.\<close>

theorem status_events_per_transition_witness:
  "get_object 1 (world_42 PENDING) = Inr (shipment_42 PENDING)
   \<and> rabbitmq_enabled (ctx_up 20)
   \<and> map fst (publish_calls
        (snd (views_update (ctx_up 20) 1 (status_request PICKED_UP) (world_42 PENDING))))
       = [''shipment.picked_up'', ''shipment.status_updated'']
   \<and> map fst (outbox
        (snd (views_update (ctx_up 20) 1 (status_request PICKED_UP) (world_42 PENDING))))
       = [''shipment.picked_up'', ''shipment.status_updated'']
   \<and> map fst (outbox (snd (views_update (ctx_up 21) 1 (status_request PICKED_UP)
        (snd (views_update (ctx_up 20) 1 (status_request PICKED_UP) (world_42 PENDING))))))
       = [''shipment.picked_up'', ''shipment.status_updated'']"
  using status_events_per_transition
          [where p = 1 and w = "world_42 PENDING" and c = "ctx_up 20"
             and rq = "status_request PICKED_UP"]
  by (simp add: views_defs example_defs publisher_defs)

end
